theory Spec2Isabelle
  imports Main
begin

section \<open>The vacation-calendar sync script (gas\_gcal\_pto\_user\_sync.js)\<close>

text \<open>
  The script mirrors events from the calendars of a list of users into a shared team
  calendar. This theory embeds its functions (\<open>setup2\<close>, \<open>sync2\<close>, \<open>importEvent2\<close>,
  \<open>findEvents2\<close>, \<open>shouldImportEvent2\<close>, \<open>formatDateAsRFC3339_2\<close>) and settles the
  properties stated about them.

  Conventions of the embedding.
  \<^item> A JavaScript string is a \<open>string\<close>; the letters that \<open>toLowerCase\<close> maps are the
    ASCII letters \<open>A\<close>..\<open>Z\<close>.
  \<^item> An optional property of an object is an \<open>option\<close>; \<open>None\<close> is \<open>undefined\<close>.
  \<^item> A \<open>Date\<close> is its time value: \<open>Some t\<close> with \<open>t\<close> the milliseconds since the epoch,
    or \<open>None\<close> for an invalid date (time value NaN).
  \<^item> A thrown exception is a value of the type \<open>error\<close>.
  \<^item> The services of the platform (the calendar provider, the date parser and
    formatter of the runtime) are the fields of a record \<open>runtime\<close>, taken as a
    parameter by every function that calls them. During a pass the provider answers
    equal requests equally, and a response carries its list of items.
  \<^item> What the script changes is a record \<open>world\<close>: the script properties, the project
    triggers, the console and the calls made to the provider's import. A run gives the
    world it leaves and either a value or the exception it threw; a run that does not
    end gives \<open>None\<close>.
\<close>

subsection \<open>Strings\<close>

definition isUpper :: "char \<Rightarrow> bool" where
  "isUpper c = (65 \<le> (of_char c :: nat) \<and> (of_char c :: nat) \<le> 90)"

definition toLowerCase_char :: "char \<Rightarrow> char" where
  "toLowerCase_char c =
     (let n = (of_char c :: nat) in if 65 \<le> n \<and> n \<le> 90 then char_of (n + 32) else c)"

definition toLowerCase :: "string \<Rightarrow> string" where
  "toLowerCase s = map toLowerCase_char s"

text \<open>
  \<open>s.indexOf(k)\<close>: the first position at which \<open>k\<close> occurs in \<open>s\<close>, or \<open>-1\<close>.
  The empty string occurs at position 0 of every string.
\<close>

fun indexOf_from :: "nat \<Rightarrow> string \<Rightarrow> string \<Rightarrow> int" where
  "indexOf_from i [] k = (if k = [] then int i else - 1)"
| "indexOf_from i (c # cs) k =
     (if take (length k) (c # cs) = k then int i else indexOf_from (Suc i) cs k)"

definition indexOf :: "string \<Rightarrow> string \<Rightarrow> int" where
  "indexOf s k = indexOf_from 0 s k"

text \<open>\<open>email.split('@')[0]\<close>: the text before the first \<open>@\<close>.\<close>

definition split_at_first :: "string \<Rightarrow> string" where
  "split_at_first email = takeWhile (\<lambda>c. c \<noteq> CHR ''@'') email"

text \<open>Truthiness of an optional string: \<open>undefined\<close>, \<open>null\<close> and \<open>''\<close> are falsy.\<close>

definition truthy :: "string option \<Rightarrow> bool" where
  "truthy x = (case x of None \<Rightarrow> False | Some s \<Rightarrow> s \<noteq> [])"

text \<open>\<open>a || b\<close> on optional strings.\<close>

definition js_or :: "string option \<Rightarrow> string option \<Rightarrow> string option" where
  "js_or a b = (if truthy a then a else b)"

text \<open>String concatenation with a possibly undefined operand.\<close>

definition js_string :: "string option \<Rightarrow> string" where
  "js_string x = (case x of None \<Rightarrow> ''undefined'' | Some s \<Rightarrow> s)"

text \<open>
  The wording of the specification, "the summary contains the keyword
  case-insensitively": both sides are lower-cased before the search.
\<close>

definition containsIgnoreCase :: "string \<Rightarrow> string \<Rightarrow> bool" where
  "containsIgnoreCase s k = (0 \<le> indexOf (toLowerCase s) (toLowerCase k))"

subsection \<open>Dates\<close>

type_synonym jsdate = "int option"

text \<open>
  \<open>getUTCDay\<close>: with \<open>Day(t) = floor (t / msPerDay)\<close> the week day is
  \<open>(Day(t) + 4) mod 7\<close>, 0 for Sunday; NaN for an invalid date.
\<close>

definition msPerDay :: int where
  "msPerDay = 86400000"

definition getUTCDay :: "jsdate \<Rightarrow> int option" where
  "getUTCDay d = map_option (\<lambda>t. (t div msPerDay + 4) mod 7) d"

subsection \<open>Calendar events\<close>

record event_date_time =
  dateTime :: "string option"
  date :: "string option"

record event_organizer =
  organizer_id :: "string option"
  organizer_email :: "string option"

record event_attendee =
  attendee_email :: "string option"
  self :: "bool option"
  responseStatus :: "string option"

type_synonym properties_payload = "(string \<times> string) list"

record calendar_event =
  summary :: "string option"
  start :: "event_date_time option"
  organizer :: "event_organizer option"
  attendees :: "event_attendee list option"
  eventType :: "string option"
  outOfOfficeProperties :: "properties_payload option"
  focusTimeProperties :: "properties_payload option"

subsection \<open>Errors and the platform\<close>

datatype error = TypeError | Error string

record list_params =
  q :: string
  timeMin :: string
  timeMax :: string
  showDeleted :: bool
  updatedMin :: "string option"
  pageToken :: "string option"

record events_response =
  items :: "calendar_event list"
  nextPageToken :: "string option"

text \<open>
  The services the script calls. \<open>Events_list\<close> and \<open>Events_import\<close> are the two
  calls of the calendar provider; \<open>Inl msg\<close> is a thrown exception with its text.
  \<open>parseDate\<close> is \<open>new Date(string)\<close>, \<open>dateToString\<close> the conversion of a date
  stored as a script property, \<open>formatDate\<close> is \<open>Utilities.formatDate\<close> with the
  time zone and pattern of \<open>formatDateAsRFC3339_2\<close>, and \<open>addMonths d n\<close> is
  \<open>d.setMonth(d.getMonth() + n)\<close>.
\<close>

record runtime =
  Events_list :: "string \<Rightarrow> list_params \<Rightarrow> string + events_response"
  Events_import :: "calendar_event \<Rightarrow> string \<Rightarrow> string + unit"
  parseDate :: "string \<Rightarrow> jsdate"
  dateToString :: "jsdate \<Rightarrow> string"
  formatDate :: "jsdate \<Rightarrow> string"
  addMonths :: "jsdate \<Rightarrow> int \<Rightarrow> jsdate"

text \<open>\<open>new Date(x)\<close> for \<open>x\<close> a string or \<open>undefined\<close>.\<close>

definition Date_new :: "runtime \<Rightarrow> string option \<Rightarrow> jsdate" where
  "Date_new rt x = (case x of None \<Rightarrow> None | Some s \<Rightarrow> parseDate rt s)"

definition formatDateAsRFC3339_2 :: "runtime \<Rightarrow> jsdate \<Rightarrow> string" where
  "formatDateAsRFC3339_2 rt d = formatDate rt d"

subsection \<open>shouldImportEvent2\<close>

definition shouldImportEvent2 ::
  "runtime \<Rightarrow> string \<Rightarrow> string \<Rightarrow> calendar_event \<Rightarrow> error + bool" where
  "shouldImportEvent2 rt email keyword event =
     (case summary event of
        None \<Rightarrow> Inl TypeError
      | Some s \<Rightarrow>
          if indexOf (toLowerCase s) keyword < 0 then Inr False
          else
            (case start event of
               None \<Rightarrow> Inl TypeError
             | Some st \<Rightarrow>
                 let eventStartDate = Date_new rt (js_or (dateTime st) (date st));
                     dayOfWeek = getUTCDay eventStartDate
                 in
                   if dayOfWeek = Some 0 \<or> dayOfWeek = Some 6 then Inr False
                   else if (case organizer event of
                              None \<Rightarrow> True
                            | Some og \<Rightarrow> organizer_email og = Some email)
                   then Inr True
                   else
                     (case attendees event of
                        None \<Rightarrow> Inr False
                      | Some as \<Rightarrow>
                          let matching = filter (\<lambda>attendee. self attendee = Some True) as
                          in Inr (length matching > 0 \<and>
                                  responseStatus (matching ! 0) = Some ''accepted''))))"

subsection \<open>The world the script acts on\<close>

text \<open>
  The lines written to the console, with the values substituted into their formats:
  \<^item> \<open>Importing summary\<close> is \<open>console.log('Importing: %s', event.summary)\<close>;
  \<^item> \<open>ImportError e\<close> is
    \<open>console.error('Error attempting to import event: %s. Skipping.', e.toString())\<close>;
  \<^item> \<open>RetrieveError email keyword e\<close> is
    \<open>console.error('Error retrieving events for %s, %s: %s; skipping', email, keyword, e.toString())\<close>;
  \<^item> \<open>Imported count\<close> is \<open>console.log('Imported ' + count + ' events')\<close>.
\<close>

datatype log_entry =
    Importing string
  | ImportError string
  | RetrieveError string string string
  | Imported nat

record trigger =
  handler :: string
  everyHours :: nat

text \<open>
  \<open>properties\<close> are the script properties, \<open>triggers\<close> the project triggers,
  \<open>console\<close> the lines logged so far, \<open>importCalls\<close> every call of
  \<open>Calendar.Events.import\<close> made so far (the event and the calendar id, whether or
  not the provider accepted it), \<open>clock\<close> the time \<open>new Date()\<close> reads.
\<close>

record world =
  properties :: "string \<rightharpoonup> string"
  triggers :: "trigger list"
  console :: "log_entry list"
  importCalls :: "(calendar_event \<times> string) list"
  clock :: int

text \<open>The configuration: the four variables at the top of the script.\<close>

record config =
  TEAM_CALENDAR_ID2 :: string
  USER_EMAILS2 :: "string list"
  KEYWORDS2 :: "string list"
  MONTHS_IN_ADVANCE2 :: int

text \<open>The keyword list and the look-ahead as the script sets them.\<close>

definition source_KEYWORDS2 :: "string list" where
  "source_KEYWORDS2 =
     [''pto'', ''ooo'', ''out of office'', ''offline'', ''vacation'', ''PTO'', ''Out of office'']"

definition source_MONTHS_IN_ADVANCE2 :: int where
  "source_MONTHS_IN_ADVANCE2 = 3"

text \<open>A call either returns a value or throws; a call that never returns has no outcome.\<close>

datatype 'a outcome = Returns 'a | Throws error

subsection \<open>importEvent2\<close>

text \<open>
  The first half of \<open>importEvent2\<close> rewrites the event in place (the transform the
  specification calls \<open>toMirroredEvent\<close>); the second half logs and calls the provider.
  \<open>eventType != 'default'\<close> holds for an event without an \<open>eventType\<close>.
\<close>

definition toMirroredEvent :: "config \<Rightarrow> string \<Rightarrow> calendar_event \<Rightarrow> calendar_event" where
  "toMirroredEvent cfg username event =
     (let e1 = event\<lparr>summary := Some (''['' @ username @ ''] '' @ js_string (summary event))\<rparr>;
          e2 = e1\<lparr>organizer :=
                   Some \<lparr>organizer_id = Some (TEAM_CALENDAR_ID2 cfg), organizer_email = None\<rparr>\<rparr>;
          e3 = e2\<lparr>attendees := Some []\<rparr>
      in if eventType e3 \<noteq> Some ''default''
         then e3\<lparr>eventType := Some ''default'',
                 outOfOfficeProperties := None,
                 focusTimeProperties := None\<rparr>
         else e3)"

definition importEvent2 :: "runtime \<Rightarrow> config \<Rightarrow> string \<Rightarrow> calendar_event \<Rightarrow> world \<Rightarrow> world" where
  "importEvent2 rt cfg username event w =
     (let event' = toMirroredEvent cfg username event;
          w1 = w\<lparr>console := console w @ [Importing (js_string (summary event'))]\<rparr>;
          w2 = w1\<lparr>importCalls := importCalls w1 @ [(event', TEAM_CALENDAR_ID2 cfg)]\<rparr>
      in case Events_import rt event' (TEAM_CALENDAR_ID2 cfg) of
           Inl e \<Rightarrow> w2\<lparr>console := console w2 @ [ImportError e]\<rparr>
         | Inr u \<Rightarrow> w2)"

subsection \<open>findEvents2\<close>

text \<open>\<open>items.filter(f)\<close> for a callback that may throw: the first throw ends the call.\<close>

fun Array_filter :: "('a \<Rightarrow> error + bool) \<Rightarrow> 'a list \<Rightarrow> error + 'a list" where
  "Array_filter f [] = Inr []"
| "Array_filter f (x # xs) =
     (case f x of
        Inl e \<Rightarrow> Inl e
      | Inr b \<Rightarrow>
          (case Array_filter f xs of
             Inl e \<Rightarrow> Inl e
           | Inr ys \<Rightarrow> Inr (if b then x # ys else ys)))"

text \<open>
  The \<open>do ... while (pageToken)\<close> loop. Its state is the page token, the events
  collected and the lines logged. \<open>continue\<close> in the \<open>catch\<close> block jumps to the loop
  condition, which tests the token of the request that has just failed. A loop that does
  not end has the value \<open>None\<close>.
\<close>

partial_function (option) findEvents2_loop ::
  "runtime \<Rightarrow> string \<Rightarrow> string \<Rightarrow> list_params \<Rightarrow> string option \<Rightarrow> calendar_event list \<Rightarrow>
   log_entry list \<Rightarrow> (log_entry list \<times> calendar_event list outcome) option" where
  "findEvents2_loop rt email keyword params token events out =
     (case Events_list rt email (params\<lparr>pageToken := token\<rparr>) of
        Inl e \<Rightarrow>
          if truthy token
          then findEvents2_loop rt email keyword params token events
                 (out @ [RetrieveError email keyword e])
          else Some (out @ [RetrieveError email keyword e], Returns events)
      | Inr response \<Rightarrow>
          (case Array_filter (shouldImportEvent2 rt email keyword) (items response) of
             Inl err \<Rightarrow> Some (out, Throws err)
           | Inr passed \<Rightarrow>
               if truthy (nextPageToken response)
               then findEvents2_loop rt email keyword params (nextPageToken response)
                      (events @ passed) out
               else Some (out, Returns (events @ passed))))"

declare findEvents2_loop.simps [code]

definition findEvents2 ::
  "runtime \<Rightarrow> string \<Rightarrow> string \<Rightarrow> jsdate \<Rightarrow> jsdate \<Rightarrow> jsdate option \<Rightarrow>
   (log_entry list \<times> calendar_event list outcome) option" where
  "findEvents2 rt email keyword dstart dend optSince =
     (let params = \<lparr>q = keyword,
                     timeMin = formatDateAsRFC3339_2 rt dstart,
                     timeMax = formatDateAsRFC3339_2 rt dend,
                     showDeleted = True, updatedMin = None, pageToken = None\<rparr>;
          params' = (case optSince of
                       None \<Rightarrow> params
                     | Some since \<Rightarrow>
                         params\<lparr>updatedMin := Some (formatDateAsRFC3339_2 rt since)\<rparr>)
      in findEvents2_loop rt email keyword params' None [] [])"

subsection \<open>sync2 and setup2\<close>

text \<open>The three nested \<open>forEach\<close> loops of \<open>sync2\<close>, innermost first.\<close>

fun forEach_event ::
  "runtime \<Rightarrow> config \<Rightarrow> string \<Rightarrow> calendar_event list \<Rightarrow> nat \<Rightarrow> world \<Rightarrow> nat \<times> world" where
  "forEach_event rt cfg username [] count w = (count, w)"
| "forEach_event rt cfg username (event # events) count w =
     forEach_event rt cfg username events (count + 1) (importEvent2 rt cfg username event w)"

fun forEach_keyword ::
  "runtime \<Rightarrow> config \<Rightarrow> string \<Rightarrow> jsdate \<Rightarrow> jsdate \<Rightarrow> jsdate option \<Rightarrow> string list \<Rightarrow> nat \<Rightarrow>
   world \<Rightarrow> (world \<times> nat outcome) option" where
  "forEach_keyword rt cfg email today maxDate lastRun [] count w = Some (w, Returns count)"
| "forEach_keyword rt cfg email today maxDate lastRun (keyword # keywords) count w =
     (case findEvents2 rt email keyword today maxDate lastRun of
        None \<Rightarrow> None
      | Some (out, Throws e) \<Rightarrow> Some (w\<lparr>console := console w @ out\<rparr>, Throws e)
      | Some (out, Returns events) \<Rightarrow>
          (case forEach_event rt cfg (split_at_first email) events count
                  (w\<lparr>console := console w @ out\<rparr>) of
             (count', w') \<Rightarrow>
               forEach_keyword rt cfg email today maxDate lastRun keywords count' w'))"

fun forEach_user ::
  "runtime \<Rightarrow> config \<Rightarrow> jsdate \<Rightarrow> jsdate \<Rightarrow> jsdate option \<Rightarrow> string list \<Rightarrow> nat \<Rightarrow> world \<Rightarrow>
   (world \<times> nat outcome) option" where
  "forEach_user rt cfg today maxDate lastRun [] count w = Some (w, Returns count)"
| "forEach_user rt cfg today maxDate lastRun (email # emails) count w =
     (case forEach_keyword rt cfg email today maxDate lastRun (KEYWORDS2 cfg) count w of
        None \<Rightarrow> None
      | Some (w', Throws e) \<Rightarrow> Some (w', Throws e)
      | Some (w', Returns count') \<Rightarrow>
          forEach_user rt cfg today maxDate lastRun emails count' w')"

definition sync2 :: "runtime \<Rightarrow> config \<Rightarrow> world \<Rightarrow> (world \<times> unit outcome) option" where
  "sync2 rt cfg w =
     (let today = Some (clock w);
          maxDate = addMonths rt (Some (clock w)) (MONTHS_IN_ADVANCE2 cfg);
          lastRun = (case properties w ''lastRun'' of
                       None \<Rightarrow> None
                     | Some s \<Rightarrow> if s \<noteq> [] then Some (parseDate rt s) else None)
      in case forEach_user rt cfg today maxDate lastRun (USER_EMAILS2 cfg) 0 w of
           None \<Rightarrow> None
         | Some (w', Throws e) \<Rightarrow> Some (w', Throws e)
         | Some (w', Returns count) \<Rightarrow>
             Some (w'\<lparr>properties := (properties w')(''lastRun'' \<mapsto> dateToString rt today),
                       console := console w' @ [Imported count]\<rparr>,
                   Returns ()))"

definition setup2 :: "runtime \<Rightarrow> config \<Rightarrow> world \<Rightarrow> (world \<times> unit outcome) option" where
  "setup2 rt cfg w =
     (if length (triggers w) > 0 then Some (w, Throws (Error ''Triggers are already setup.''))
      else sync2 rt cfg (w\<lparr>triggers := triggers w @ [\<lparr>handler = ''sync2'', everyHours = 1\<rparr>]\<rparr>))"

subsection \<open>An example platform\<close>

text \<open>
  The theorems below hold for every \<open>runtime\<close>. The concrete inputs they are tried on
  use the following one: its clock runs in UTC, \<open>new Date(string)\<close> reads the two forms
  the calendar provider sends (\<open>YYYY-MM-DD\<close>, read as midnight UTC, and
  \<open>YYYY-MM-DDTHH:mm:ss\<close> followed by \<open>Z\<close> or an offset \<open>+HH:mm\<close> or \<open>-HH:mm\<close>) and gives an
  invalid date on anything else; a date is stored as a script property in the second
  form with \<open>Z\<close>, and formatted for the provider with the offset \<open>+0000\<close>.
\<close>

definition digit_val :: "char \<Rightarrow> nat option" where
  "digit_val c =
     (let n = (of_char c :: nat) in if 48 \<le> n \<and> n \<le> 57 then Some (n - 48) else None)"

fun digits_val :: "nat \<Rightarrow> string \<Rightarrow> nat option" where
  "digits_val acc [] = Some acc"
| "digits_val acc (c # cs) =
     (case digit_val c of None \<Rightarrow> None | Some d \<Rightarrow> digits_val (10 * acc + d) cs)"

text \<open>The number of a field made of exactly \<open>n\<close> digits, starting at position \<open>i\<close>.\<close>

definition field :: "string \<Rightarrow> nat \<Rightarrow> nat \<Rightarrow> int option" where
  "field s i n =
     (if i + n \<le> length s then map_option int (digits_val 0 (take n (drop i s))) else None)"

text \<open>Days between the epoch and a day of the proleptic Gregorian calendar.\<close>

definition days_from_civil :: "int \<Rightarrow> int \<Rightarrow> int \<Rightarrow> int" where
  "days_from_civil y m d =
     (let y' = (if m \<le> 2 then y - 1 else y);
          era = y' div 400;
          yoe = y' - era * 400;
          doy = (153 * (if m > 2 then m - 3 else m + 9) + 2) div 5 + d - 1;
          doe = yoe * 365 + yoe div 4 - yoe div 100 + doy
      in era * 146097 + doe - 719468)"

definition civil_from_days :: "int \<Rightarrow> int \<times> int \<times> int" where
  "civil_from_days z =
     (let z' = z + 719468;
          era = z' div 146097;
          doe = z' - era * 146097;
          yoe = (doe - doe div 1460 + doe div 36524 - doe div 146096) div 365;
          doy = doe - (365 * yoe + yoe div 4 - yoe div 100);
          mp = (5 * doy + 2) div 153;
          d = doy - (153 * mp + 2) div 5 + 1;
          m = (if mp < 10 then mp + 3 else mp - 9);
          y = yoe + era * 400
      in (if m \<le> 2 then y + 1 else y, m, d))"

definition daysInMonth :: "int \<Rightarrow> int \<Rightarrow> int" where
  "daysInMonth y m =
     (if m = 2 then (if y mod 4 = 0 \<and> (y mod 100 \<noteq> 0 \<or> y mod 400 = 0) then 29 else 28)
      else if m = 4 \<or> m = 6 \<or> m = 9 \<or> m = 11 then 30 else 31)"

definition parse_day :: "string \<Rightarrow> int option" where
  "parse_day s =
     (case (field s 0 4, field s 5 2, field s 8 2) of
        (Some y, Some m, Some d) \<Rightarrow>
          if s ! 4 = CHR ''-'' \<and> s ! 7 = CHR ''-'' \<and> 1 \<le> m \<and> m \<le> 12 \<and>
             1 \<le> d \<and> d \<le> daysInMonth y m
          then Some (days_from_civil y m d) else None
      | _ \<Rightarrow> None)"

definition parse_time :: "string \<Rightarrow> int option" where
  "parse_time s =
     (case (field s 11 2, field s 14 2, field s 17 2) of
        (Some h, Some mi, Some sec) \<Rightarrow>
          if s ! 10 = CHR ''T'' \<and> s ! 13 = CHR '':'' \<and> s ! 16 = CHR '':'' \<and>
             h \<le> 23 \<and> mi \<le> 59 \<and> sec \<le> 59
          then Some (((h * 60 + mi) * 60 + sec) * 1000) else None
      | _ \<Rightarrow> None)"

definition parse_offset :: "string \<Rightarrow> int option" where
  "parse_offset s =
     (if drop 19 s = ''Z'' then Some 0
      else if length s = 25 \<and> (s ! 19 = CHR ''+'' \<or> s ! 19 = CHR ''-'') \<and> s ! 22 = CHR '':''
      then (case (field s 20 2, field s 23 2) of
              (Some h, Some mi) \<Rightarrow>
                if h \<le> 23 \<and> mi \<le> 59
                then Some ((if s ! 19 = CHR ''-'' then - 1 else 1) * ((h * 60 + mi) * 60000))
                else None
            | _ \<Rightarrow> None)
      else None)"

definition parseISO :: "string \<Rightarrow> jsdate" where
  "parseISO s =
     (if length s = 10 then map_option (\<lambda>d. d * msPerDay) (parse_day s)
      else
        (case (parse_day (take 10 s), parse_time s, parse_offset s) of
           (Some d, Some t, Some off) \<Rightarrow> Some (d * msPerDay + t - off)
         | _ \<Rightarrow> None))"

definition pad2 :: "int \<Rightarrow> string" where
  "pad2 n = [char_of (48 + n div 10 mod 10), char_of (48 + n mod 10)]"

definition pad4 :: "int \<Rightarrow> string" where
  "pad4 n = pad2 (n div 100) @ pad2 (n mod 100)"

definition printISO :: "string \<Rightarrow> jsdate \<Rightarrow> string" where
  "printISO zone x =
     (case x of
        None \<Rightarrow> ''Invalid Date''
      | Some t \<Rightarrow>
          (case civil_from_days (t div msPerDay) of
             (y, m, d) \<Rightarrow>
               let r = t mod msPerDay in
                 pad4 y @ ''-'' @ pad2 m @ ''-'' @ pad2 d @ ''T'' @ pad2 (r div 3600000) @ '':'' @
                 pad2 (r div 60000 mod 60) @ '':'' @ pad2 (r div 1000 mod 60) @ zone))"

text \<open>
  \<open>setMonth\<close>: the day of the month and the time of day are kept, the month number is
  carried into the year, and a day past the end of the month runs into the next one.
\<close>

definition addMonthsUTC :: "jsdate \<Rightarrow> int \<Rightarrow> jsdate" where
  "addMonthsUTC x n =
     (case x of
        None \<Rightarrow> None
      | Some t \<Rightarrow>
          (case civil_from_days (t div msPerDay) of
             (y, m, d) \<Rightarrow>
               let k = m - 1 + n in
                 Some ((days_from_civil (y + k div 12) (k mod 12 + 1) 1 + d - 1) * msPerDay
                       + t mod msPerDay)))"

text \<open>A provider with an empty calendar that accepts every import.\<close>

definition example_runtime :: runtime where
  "example_runtime =
     \<lparr>Events_list = (\<lambda>email params. Inr \<lparr>items = [], nextPageToken = None\<rparr>),
      Events_import = (\<lambda>event calendarId. Inr ()),
      parseDate = parseISO,
      dateToString = printISO ''Z'',
      formatDate = printISO ''+0000'',
      addMonths = addMonthsUTC\<rparr>"

definition example_config :: config where
  "example_config =
     \<lparr>TEAM_CALENDAR_ID2 = ''team@group.calendar.example.com'',
      USER_EMAILS2 = [''bob@example.com''],
      KEYWORDS2 = source_KEYWORDS2,
      MONTHS_IN_ADVANCE2 = source_MONTHS_IN_ADVANCE2\<rparr>"

text \<open>A world with no script property and no trigger, on 2024-11-04 at 09:00 UTC.\<close>

definition example_world :: world where
  "example_world =
     \<lparr>properties = Map.empty, triggers = [], console = [], importCalls = [],
      clock = 1730710800000\<rparr>"

subsection \<open>Example events\<close>

text \<open>An event the user created, on Tuesday 2024-11-05.\<close>

definition event_team_pto :: calendar_event where
  "event_team_pto =
     \<lparr>summary = Some ''Team PTO'',
      start = Some \<lparr>dateTime = None, date = Some ''2024-11-05''\<rparr>,
      organizer = None, attendees = None, eventType = Some ''default'',
      outOfOfficeProperties = None, focusTimeProperties = None\<rparr>"

text \<open>The same event on Saturday 2024-11-02.\<close>

definition event_saturday :: calendar_event where
  "event_saturday = event_team_pto\<lparr>start := Some \<lparr>dateTime = None, date = Some ''2024-11-02''\<rparr>\<rparr>"

text \<open>
  An event of that Saturday without a title: the provider sends no \<open>summary\<close> for it.
  A query finds such an event when the keyword stands in another of its fields.
\<close>

definition event_untitled_saturday :: calendar_event where
  "event_untitled_saturday = event_saturday\<lparr>summary := None\<rparr>"

text \<open>
  An event organised by somebody else, on Wednesday 2024-11-06, that lists the user
  twice: declined under one address, accepted under another.
\<close>

definition event_two_own_entries :: calendar_event where
  "event_two_own_entries =
     \<lparr>summary = Some ''Offsite vacation'',
      start = Some \<lparr>dateTime = Some ''2024-11-06T10:00:00-08:00'', date = None\<rparr>,
      organizer = Some \<lparr>organizer_id = None, organizer_email = Some ''alice@example.com''\<rparr>,
      attendees = Some
        [\<lparr>attendee_email = Some ''bob@example.com'', self = Some True,
          responseStatus = Some ''declined''\<rparr>,
         \<lparr>attendee_email = Some ''robert@example.com'', self = Some True,
          responseStatus = Some ''accepted''\<rparr>],
      eventType = Some ''default'',
      outOfOfficeProperties = None, focusTimeProperties = None\<rparr>"

text \<open>The same event with the user listed once, as accepted.\<close>

definition event_accepted :: calendar_event where
  "event_accepted =
     event_two_own_entries\<lparr>attendees := Some
        [\<lparr>attendee_email = Some ''carol@example.com'', self = None,
          responseStatus = Some ''declined''\<rparr>,
         \<lparr>attendee_email = Some ''bob@example.com'', self = Some True,
          responseStatus = Some ''accepted''\<rparr>]\<rparr>"

subsection \<open>The user's own answer\<close>

text \<open>
  What the last two lines of \<open>shouldImportEvent2\<close> compute from \<open>event.attendees\<close>:
  the first entry with \<open>self = true\<close> exists and its \<open>responseStatus\<close> is
  \<open>accepted\<close>.
\<close>

definition own_response_accepted :: "event_attendee list option \<Rightarrow> bool" where
  "own_response_accepted x =
     (case x of
        None \<Rightarrow> False
      | Some as \<Rightarrow>
          (case filter (\<lambda>attendee. self attendee = Some True) as of
             [] \<Rightarrow> False
           | a # rest \<Rightarrow> responseStatus a = Some ''accepted''))"

subsection \<open>Describing a pass\<close>

text \<open>
  The functions of this section are not part of the script: the properties of
  \<open>sync2\<close> are stated with them.

  A call of \<open>findEvents2\<close> has returned, and the events it returned.
\<close>

definition returned :: "(log_entry list \<times> calendar_event list outcome) option \<Rightarrow> bool" where
  "returned r = (case r of Some (out, Returns events) \<Rightarrow> True | _ \<Rightarrow> False)"

definition events_of ::
  "(log_entry list \<times> calendar_event list outcome) option \<Rightarrow> calendar_event list" where
  "events_of r = (case r of Some (out, Returns events) \<Rightarrow> events | _ \<Rightarrow> [])"

text \<open>
  The call of \<open>findEvents2\<close> that \<open>sync2\<close>, started in the world \<open>w\<close>, makes for a user
  and a keyword: \<open>today\<close>, \<open>maxDate\<close> and \<open>lastRun\<close> are computed once, before the loops.
\<close>

definition query ::
  "runtime \<Rightarrow> config \<Rightarrow> world \<Rightarrow> string \<Rightarrow> string \<Rightarrow>
   (log_entry list \<times> calendar_event list outcome) option" where
  "query rt cfg w email keyword =
     findEvents2 rt email keyword (Some (clock w))
       (addMonths rt (Some (clock w)) (MONTHS_IN_ADVANCE2 cfg))
       (case properties w ''lastRun'' of
          None \<Rightarrow> None
        | Some s \<Rightarrow> if s \<noteq> [] then Some (parseDate rt s) else None)"

text \<open>
  The source events of a pass, each with the user name it is imported under: for every
  user in turn, for every keyword in turn, the events \<open>f\<close> gives for the pair, in order.
\<close>

definition sources ::
  "(string \<Rightarrow> string \<Rightarrow> calendar_event list) \<Rightarrow> string list \<Rightarrow> string list \<Rightarrow>
   (string \<times> calendar_event) list" where
  "sources f emails ks =
     concat (map (\<lambda>email.
                concat (map (\<lambda>keyword. map (Pair (split_at_first email)) (f email keyword)) ks))
             emails)"

abbreviation found ::
  "runtime \<Rightarrow> jsdate \<Rightarrow> jsdate \<Rightarrow> jsdate option \<Rightarrow> string \<Rightarrow> string \<Rightarrow> calendar_event list" where
  "found rt t m l \<equiv> (\<lambda>email keyword. events_of (findEvents2 rt email keyword t m l))"

definition pass_events :: "runtime \<Rightarrow> config \<Rightarrow> world \<Rightarrow> (string \<times> calendar_event) list" where
  "pass_events rt cfg w =
     sources (\<lambda>email keyword. events_of (query rt cfg w email keyword))
       (USER_EMAILS2 cfg) (KEYWORDS2 cfg)"




text \<open>The call of \<open>Calendar.Events.import\<close> that \<open>importEvent2\<close> makes for a source event.\<close>

definition import_call :: "config \<Rightarrow> string \<times> calendar_event \<Rightarrow> calendar_event \<times> string" where
  "import_call cfg =
     (\<lambda>(username, event). (toMirroredEvent cfg username event, TEAM_CALENDAR_ID2 cfg))"

text \<open>
  The import failures a console shows, and the failures a list of import calls meets
  at a provider, both in order.
\<close>

definition logged_failures :: "log_entry list \<Rightarrow> string list" where
  "logged_failures lg = concat (map (\<lambda>x. case x of ImportError e \<Rightarrow> [e] | _ \<Rightarrow> []) lg)"

definition import_failures ::
  "(calendar_event \<Rightarrow> string \<Rightarrow> string + unit) \<Rightarrow> (calendar_event \<times> string) list \<Rightarrow>
   string list" where
  "import_failures imp calls =
     concat (map (\<lambda>(event, calendarId).
                    case imp event calendarId of Inl e \<Rightarrow> [e] | Inr u \<Rightarrow> []) calls)"

text \<open>
  What importing the source events \<open>srcs\<close> does to a world: one import call for each, in
  order, one logged failure for each call the provider refuses, and nothing else but
  console lines.
\<close>

definition pass_effect ::
  "runtime \<Rightarrow> config \<Rightarrow> world \<Rightarrow> world \<Rightarrow> (string \<times> calendar_event) list \<Rightarrow> bool" where
  "pass_effect rt cfg w w' srcs =
     (properties w' = properties w \<and> triggers w' = triggers w \<and> clock w' = clock w \<and>
      importCalls w' = importCalls w @ map (import_call cfg) srcs \<and>
      logged_failures (console w') =
        logged_failures (console w) @
        import_failures (Events_import rt) (map (import_call cfg) srcs))"

text \<open>How a run ended, and the watermark it left.\<close>

definition outcome_of :: "(world \<times> unit outcome) option \<Rightarrow> unit outcome option" where
  "outcome_of r = map_option snd r"

definition lastRun_after :: "(world \<times> unit outcome) option \<Rightarrow> string option option" where
  "lastRun_after r = map_option (\<lambda>(w', x). properties w' ''lastRun'') r"


subsection \<open>Example providers\<close>

text \<open>
  An out-of-office event of the user, on Tuesday 2024-11-05, whose title holds two of
  the keywords.
\<close>

definition event_pto_vacation :: calendar_event where
  "event_pto_vacation =
     \<lparr>summary = Some ''PTO vacation'',
      start = Some \<lparr>dateTime = None, date = Some ''2024-11-05''\<rparr>,
      organizer = Some \<lparr>organizer_id = None, organizer_email = Some ''bob@example.com''\<rparr>,
      attendees = None, eventType = Some ''outOfOffice'',
      outOfOfficeProperties = Some [(''autoDeclineMode'', ''declineNone'')],
      focusTimeProperties = None\<rparr>"

text \<open>
  A provider whose calendars hold that one event: a query gets it when its search text
  occurs in the title.
\<close>

definition runtime_one_event :: runtime where
  "runtime_one_event =
     example_runtime\<lparr>Events_list :=
       (\<lambda>email params.
          Inr \<lparr>items = (if containsIgnoreCase ''PTO vacation'' (q params)
                        then [event_pto_vacation] else []),
               nextPageToken = None\<rparr>)\<rparr>"


text \<open>The same provider, refusing every import.\<close>

definition refuse_import :: "calendar_event \<Rightarrow> string \<Rightarrow> string + unit" where
  "refuse_import event calendarId = Inl ''Forbidden''"

text \<open>
  A provider that sends a first page and a token for the next one, and fails on every
  request for that next page.
\<close>

definition runtime_second_page_fails :: runtime where
  "runtime_second_page_fails =
     example_runtime\<lparr>Events_list :=
       (\<lambda>email params.
          if pageToken params = None
          then Inr \<lparr>items = [event_team_pto], nextPageToken = Some ''page2''\<rparr>
          else Inl ''Backend Error'')\<rparr>"

text \<open>
  A cancelled instance of a recurring event, as a query with \<open>showDeleted: true\<close> gets
  it: it has neither summary nor start. And a provider that sends it.
\<close>

definition event_cancelled :: calendar_event where
  "event_cancelled =
     \<lparr>summary = None, start = None, organizer = None, attendees = None, eventType = None,
      outOfOfficeProperties = None, focusTimeProperties = None\<rparr>"

definition runtime_cancelled_item :: runtime where
  "runtime_cancelled_item =
     example_runtime\<lparr>Events_list :=
       (\<lambda>email params. Inr \<lparr>items = [event_cancelled], nextPageToken = None\<rparr>)\<rparr>"

section \<open>Properties\<close>

subsection \<open>Searching in lower-cased strings\<close>

lemma indexOf_from_occurs:
  "0 \<le> indexOf_from i s k \<Longrightarrow> \<exists>pre post. s = pre @ k @ post"
proof (induction s arbitrary: i)
  case Nil
  then show ?case by (auto split: if_splits)
next
  case (Cons c cs)
  show ?case
  proof (cases "take (length k) (c # cs) = k")
    case True
    then have "c # cs = [] @ k @ drop (length k) (c # cs)"
      by (metis append_Nil append_take_drop_id)
    then show ?thesis by blast
  next
    case False
    with Cons.prems have "0 \<le> indexOf_from (Suc i) cs k" by simp
    then obtain pre post where "cs = pre @ k @ post" using Cons.IH by blast
    then have "c # cs = (c # pre) @ k @ post" by simp
    then show ?thesis by blast
  qed
qed

lemma indexOf_from_prefix: "0 \<le> indexOf_from i (k @ post) k"
proof (cases "k @ post")
  case Nil
  then show ?thesis by simp
next
  case (Cons a list)
  have "take (length k) (k @ post) = k" by simp
  with Cons show ?thesis by simp
qed

lemma indexOf_from_found: "0 \<le> indexOf_from i (pre @ k @ post) k"
proof (induction pre arbitrary: i)
  case Nil
  show ?case using indexOf_from_prefix by simp
next
  case (Cons c pre)
  have "indexOf_from i ((c # pre) @ k @ post) k =
        (if take (length k) (c # pre @ k @ post) = k then int i
         else indexOf_from (Suc i) (pre @ k @ post) k)"
    by (simp only: append_Cons indexOf_from.simps)
  moreover have "0 \<le> indexOf_from (Suc i) (pre @ k @ post) k" by (rule Cons.IH)
  ultimately show ?case by (simp only: split: if_split) simp
qed

lemma indexOf_from_lower: "- 1 \<le> indexOf_from i s k"
  by (induction s arbitrary: i) auto

text \<open>\<open>indexOf\<close> is non-negative exactly when the keyword occurs as a substring.\<close>

lemma indexOf_nonneg_iff: "0 \<le> indexOf s k \<longleftrightarrow> (\<exists>pre post. s = pre @ k @ post)"
  unfolding indexOf_def using indexOf_from_occurs indexOf_from_found by blast

lemma toLowerCase_char_not_upper: "\<not> isUpper (toLowerCase_char c)"
  unfolding isUpper_def toLowerCase_char_def Let_def by auto

lemma toLowerCase_char_fix: "\<not> isUpper c \<Longrightarrow> toLowerCase_char c = c"
  unfolding isUpper_def toLowerCase_char_def Let_def by auto

lemma toLowerCase_fix_iff: "toLowerCase k = k \<longleftrightarrow> (\<forall>c\<in>set k. \<not> isUpper c)"
proof (induction k)
  case Nil
  show ?case by (simp add: toLowerCase_def)
next
  case (Cons a k)
  have "toLowerCase_char a = a \<longleftrightarrow> \<not> isUpper a"
    using toLowerCase_char_not_upper[of a] toLowerCase_char_fix[of a] by auto
  with Cons show ?case by (simp add: toLowerCase_def)
qed

text \<open>
  A keyword with an upper-case letter is never found in a lower-cased summary: the
  first test of \<open>shouldImportEvent2\<close> rejects every event for such a keyword.
\<close>

lemma upper_keyword_never_found:
  assumes "c \<in> set k" and "isUpper c"
  shows "indexOf (toLowerCase s) k < 0"
proof (rule ccontr)
  assume "\<not> indexOf (toLowerCase s) k < 0"
  then have "0 \<le> indexOf (toLowerCase s) k" by simp
  then obtain pre post where "toLowerCase s = pre @ k @ post"
    unfolding indexOf_nonneg_iff by blast
  then have "set k \<subseteq> set (toLowerCase s)" by auto
  with assms(1) have "c \<in> toLowerCase_char ` set s"
    unfolding toLowerCase_def by auto
  then obtain c' where "c = toLowerCase_char c'" by blast
  with assms(2) show False using toLowerCase_char_not_upper by simp
qed

subsection \<open>shouldImportEvent2: the keyword test\<close>

text \<open>
  No event is accepted for a keyword that has an upper-case letter, whatever its
  summary: the summary is lower-cased, the keyword is not.
\<close>

lemma shouldImportEvent2_upper_keyword:
  assumes "c \<in> set keyword" and "isUpper c"
  shows "shouldImportEvent2 rt email keyword event \<noteq> Inr True"
  using upper_keyword_never_found[OF assms]
  by (simp add: shouldImportEvent2_def split: option.splits)

text \<open>
  For a keyword without upper-case letters the owner rule is as stated: an event on a
  week day whose summary contains the keyword case-insensitively, and that has no
  organizer or is organised by the user, is accepted.
\<close>

lemma shouldImportEvent2_owner:
  assumes "summary event = Some s"
    and "toLowerCase keyword = keyword"
    and "containsIgnoreCase s keyword"
    and "start event = Some st"
    and "getUTCDay (Date_new rt (js_or (dateTime st) (date st))) = Some d"
    and "1 \<le> d" and "d \<le> 5"
    and "organizer event = None \<or>
         (\<exists>og. organizer event = Some og \<and> organizer_email og = Some email)"
  shows "shouldImportEvent2 rt email keyword event = Inr True"
  using assms
  by (auto simp: shouldImportEvent2_def containsIgnoreCase_def Let_def)

text \<open>
  C1. The claim: every week-day event whose summary contains the keyword
  case-insensitively, with no organizer or organised by the user, is accepted, for every
  configured keyword, the mixed-case ones included. The script does not do this for the
  keyword \<open>PTO\<close> of its own list: the event "Team PTO" of Tuesday 2024-11-05, without
  organizer, contains \<open>PTO\<close> case-insensitively and is rejected.
\<close>

theorem shouldImportEvent2_rejects_configured_PTO:
  "''PTO'' \<in> set source_KEYWORDS2 \<and>
   summary event_team_pto = Some ''Team PTO'' \<and>
   containsIgnoreCase ''Team PTO'' ''PTO'' \<and>
   start event_team_pto = Some \<lparr>dateTime = None, date = Some ''2024-11-05''\<rparr> \<and>
   getUTCDay (Date_new example_runtime (js_or None (Some ''2024-11-05''))) = Some 2 \<and>
   organizer event_team_pto = None \<and>
   shouldImportEvent2 example_runtime ''bob@example.com'' ''PTO'' event_team_pto = Inr False"
  by code_simp

subsection \<open>shouldImportEvent2: events organised by somebody else\<close>

text \<open>
  C2, as stated: for an event organised by somebody else, the result is true exactly
  when some attendee entry has \<open>self = true\<close> and \<open>responseStatus = accepted\<close>. It fails
  on an event that lists the user twice: the second entry is the accepted one, and the
  script looks at the first entry only.
\<close>

theorem shouldImportEvent2_some_entry_counterexample:
  "summary event_two_own_entries = Some ''Offsite vacation'' \<and>
   containsIgnoreCase ''Offsite vacation'' ''vacation'' \<and>
   start event_two_own_entries =
     Some \<lparr>dateTime = Some ''2024-11-06T10:00:00-08:00'', date = None\<rparr> \<and>
   getUTCDay (Date_new example_runtime (js_or (Some ''2024-11-06T10:00:00-08:00'') None)) = Some 3 \<and>
   organizer event_two_own_entries =
     Some \<lparr>organizer_id = None, organizer_email = Some ''alice@example.com''\<rparr> \<and>
   attendees event_two_own_entries =
     Some [\<lparr>attendee_email = Some ''bob@example.com'', self = Some True,
             responseStatus = Some ''declined''\<rparr>,
           \<lparr>attendee_email = Some ''robert@example.com'', self = Some True,
             responseStatus = Some ''accepted''\<rparr>] \<and>
   shouldImportEvent2 example_runtime ''bob@example.com'' ''vacation'' event_two_own_entries =
     Inr False"
  by code_simp

text \<open>
  C2, amended: for a keyword without upper-case letters, an event on a week day
  (Monday to Friday in UTC) whose summary contains the keyword case-insensitively and
  whose organizer is present and is not the user is accepted exactly when the first
  attendee entry with \<open>self = true\<close> has \<open>responseStatus = accepted\<close>; it is rejected
  when the attendees are absent, when no entry has \<open>self = true\<close>, and when that first
  entry has any other response status.
\<close>

theorem shouldImportEvent2_invited:
  assumes "summary event = Some s"
    and "toLowerCase keyword = keyword"
    and "containsIgnoreCase s keyword"
    and "start event = Some st"
    and "getUTCDay (Date_new rt (js_or (dateTime st) (date st))) = Some d"
    and "1 \<le> d" and "d \<le> 5"
    and "organizer event = Some og" and "organizer_email og \<noteq> Some email"
  shows "shouldImportEvent2 rt email keyword event =
         Inr (own_response_accepted (attendees event))"
  using assms
  by (auto simp: shouldImportEvent2_def containsIgnoreCase_def Let_def
        own_response_accepted_def nth_Cons' split: option.splits list.splits)

theorem shouldImportEvent2_invited_witness:
  "own_response_accepted (attendees event_accepted) \<and>
   shouldImportEvent2 example_runtime ''bob@example.com'' ''vacation'' event_accepted = Inr True \<and>
   \<not> own_response_accepted (attendees event_two_own_entries) \<and>
   shouldImportEvent2 example_runtime ''bob@example.com'' ''vacation'' event_two_own_entries =
     Inr False"
proof -
  let ?st = "\<lparr>dateTime = Some ''2024-11-06T10:00:00-08:00'', date = None\<rparr>"
  let ?og = "\<lparr>organizer_id = None, organizer_email = Some ''alice@example.com''\<rparr>"
  have k: "toLowerCase ''vacation'' = ''vacation''" by code_simp
  have c: "containsIgnoreCase ''Offsite vacation'' ''vacation''" by code_simp
  have d: "getUTCDay (Date_new example_runtime (js_or (dateTime ?st) (date ?st))) = Some 3"
    by code_simp
  have og: "organizer_email ?og \<noteq> Some ''bob@example.com''" by code_simp
  have a1: "summary event_accepted = Some ''Offsite vacation''" by code_simp
  have a2: "start event_accepted = Some ?st" by code_simp
  have a3: "organizer event_accepted = Some ?og" by code_simp
  have a4: "own_response_accepted (attendees event_accepted)" by code_simp
  have b1: "summary event_two_own_entries = Some ''Offsite vacation''" by code_simp
  have b2: "start event_two_own_entries = Some ?st" by code_simp
  have b3: "organizer event_two_own_entries = Some ?og" by code_simp
  have b4: "\<not> own_response_accepted (attendees event_two_own_entries)" by code_simp
  from shouldImportEvent2_invited[OF a1 k c a2 d _ _ a3 og] a4
  have "shouldImportEvent2 example_runtime ''bob@example.com'' ''vacation'' event_accepted =
        Inr True" by simp
  moreover
  from shouldImportEvent2_invited[OF b1 k c b2 d _ _ b3 og] b4
  have "shouldImportEvent2 example_runtime ''bob@example.com'' ''vacation''
          event_two_own_entries = Inr False" by simp
  ultimately show ?thesis using a4 b4 by simp
qed

text \<open>
  When at most one entry has \<open>self = true\<close>, the first such entry is the only one, and
  the amended statement is the claim as written.
\<close>

lemma own_response_accepted_unique:
  assumes "length (filter (\<lambda>attendee. self attendee = Some True) as) \<le> 1"
  shows "own_response_accepted (Some as) \<longleftrightarrow>
         (\<exists>a\<in>set as. self a = Some True \<and> responseStatus a = Some ''accepted'')"
proof (cases "filter (\<lambda>attendee. self attendee = Some True) as")
  case Nil
  then have "\<forall>a\<in>set as. self a \<noteq> Some True" by (simp add: filter_empty_conv)
  with Nil show ?thesis by (auto simp: own_response_accepted_def)
next
  case (Cons a rest)
  with assms have rest: "rest = []" by simp
  have "set (filter (\<lambda>attendee. self attendee = Some True) as) = {a}"
    using Cons rest by simp
  then have one: "b \<in> set as \<and> self b = Some True \<longleftrightarrow> b = a" for b by auto
  have "own_response_accepted (Some as) \<longleftrightarrow> responseStatus a = Some ''accepted''"
    using Cons by (simp add: own_response_accepted_def)
  also have "\<dots> \<longleftrightarrow> (\<exists>b\<in>set as. self b = Some True \<and> responseStatus b = Some ''accepted'')"
  proof
    assume "responseStatus a = Some ''accepted''"
    moreover have "a \<in> set as \<and> self a = Some True" using one[of a] by simp
    ultimately show "\<exists>b\<in>set as. self b = Some True \<and> responseStatus b = Some ''accepted''"
      by blast
  next
    assume "\<exists>b\<in>set as. self b = Some True \<and> responseStatus b = Some ''accepted''"
    then obtain b where b: "b \<in> set as" "self b = Some True"
      "responseStatus b = Some ''accepted''" by blast
    then have "b = a" using one[of b] by simp
    with b show "responseStatus a = Some ''accepted''" by simp
  qed
  finally show ?thesis .
qed

lemma own_response_accepted_rejects:
  "\<not> own_response_accepted None"
  "\<forall>a\<in>set as. self a \<noteq> Some True \<Longrightarrow> \<not> own_response_accepted (Some as)"
  by (auto simp: own_response_accepted_def filter_empty_conv split: list.splits)

subsection \<open>shouldImportEvent2: the week-end test\<close>

text \<open>
  C5, as stated: every event whose start falls on a Saturday or Sunday is rejected.
  The first statement of \<open>shouldImportEvent2\<close> reads \<open>event.summary.toLowerCase()\<close>:
  for an event of a Saturday that has no summary the call throws a \<open>TypeError\<close>, and
  returns nothing.
\<close>

theorem shouldImportEvent2_weekend_untitled_counterexample:
  "summary event_untitled_saturday = None \<and>
   start event_untitled_saturday = Some \<lparr>dateTime = None, date = Some ''2024-11-02''\<rparr> \<and>
   getUTCDay (Date_new example_runtime (js_or None (Some ''2024-11-02''))) = Some 6 \<and>
   shouldImportEvent2 example_runtime ''bob@example.com'' ''pto'' event_untitled_saturday =
     Inl TypeError"
  by code_simp

text \<open>
  C5, amended: an event that has a summary and whose start falls on a Saturday or
  Sunday, as a UTC day of the week, is rejected, whatever its organizer, attendees and
  response status - and whatever the keyword.
\<close>

theorem shouldImportEvent2_weekend:
  assumes "summary event = Some s"
    and "start event = Some st"
    and "getUTCDay (Date_new rt (js_or (dateTime st) (date st))) = Some d"
    and "d = 0 \<or> d = 6"
  shows "shouldImportEvent2 rt email keyword event = Inr False"
  using assms
  by (auto simp: shouldImportEvent2_def Let_def)

theorem shouldImportEvent2_weekend_witness:
  "summary event_saturday = Some ''Team PTO'' \<and>
   start event_saturday = Some \<lparr>dateTime = None, date = Some ''2024-11-02''\<rparr> \<and>
   getUTCDay (Date_new example_runtime (js_or None (Some ''2024-11-02''))) = Some 6 \<and>
   shouldImportEvent2 example_runtime ''bob@example.com'' ''pto'' event_saturday = Inr False"
proof -
  let ?st = "\<lparr>dateTime = None, date = Some ''2024-11-02''\<rparr>"
  have s: "summary event_saturday = Some ''Team PTO''" by code_simp
  have st: "start event_saturday = Some ?st" by code_simp
  have d: "getUTCDay (Date_new example_runtime (js_or (dateTime ?st) (date ?st))) = Some 6"
    by code_simp
  have "shouldImportEvent2 example_runtime ''bob@example.com'' ''pto'' event_saturday = Inr False"
    using shouldImportEvent2_weekend[OF s st d] by simp
  with s st d show ?thesis by simp
qed

subsection \<open>The pagination loop\<close>

lemma shouldImportEvent2_error:
  "shouldImportEvent2 rt email keyword event = Inl e \<Longrightarrow> e = TypeError"
  by (auto simp: shouldImportEvent2_def Let_def split: option.splits if_splits)

lemma Date_new_import_irrelevant: "Date_new (rt\<lparr>Events_import := imp\<rparr>) = Date_new rt"
  by (intro ext) (simp add: Date_new_def split: option.splits)

lemma shouldImportEvent2_import_irrelevant:
  "shouldImportEvent2 (rt\<lparr>Events_import := imp\<rparr>) = shouldImportEvent2 rt"
  unfolding shouldImportEvent2_def Date_new_import_irrelevant ..

lemma Array_filter_Inr:
  "\<forall>x\<in>set xs. \<exists>b. f x = Inr b \<Longrightarrow> Array_filter f xs = Inr (filter (\<lambda>x. f x = Inr True) xs)"
  by (induction xs) auto

lemma Array_filter_Inl:
  "x \<in> set xs \<Longrightarrow> f x = Inl e \<Longrightarrow> \<exists>e'. Array_filter f xs = Inl e'"
  by (induction xs) (auto split: sum.splits)

lemma Array_filter_error:
  "Array_filter f xs = Inl e \<Longrightarrow> \<exists>x\<in>set xs. f x = Inl e"
  by (induction xs arbitrary: e) (auto split: sum.splits)

lemma findEvents2_loop_first_page_fails:
  assumes "Events_list rt email (params\<lparr>pageToken := token\<rparr>) = Inl e" and "\<not> truthy token"
  shows "findEvents2_loop rt email keyword params token events out =
         Some (out @ [RetrieveError email keyword e], Returns events)"
  using assms by (subst findEvents2_loop.simps) simp

lemma findEvents2_loop_throws:
  assumes "Events_list rt email (params\<lparr>pageToken := token\<rparr>) = Inr response"
    and "Array_filter (shouldImportEvent2 rt email keyword) (items response) = Inl err"
  shows "findEvents2_loop rt email keyword params token events out = Some (out, Throws err)"
  using assms by (subst findEvents2_loop.simps) simp


lemma findEvents2_loop_next_page:
  assumes "Events_list rt email (params\<lparr>pageToken := token\<rparr>) = Inr response"
    and "Array_filter (shouldImportEvent2 rt email keyword) (items response) = Inr passed"
    and "truthy (nextPageToken response)"
  shows "findEvents2_loop rt email keyword params token events out =
         findEvents2_loop rt email keyword params (nextPageToken response) (events @ passed) out"
  using assms by (subst findEvents2_loop.simps) simp

lemmas findEvents2_loop_induct =
  findEvents2_loop.raw_induct[rotated 1, consumes 1, case_names step]

lemma findEvents2_loop_retry_aux:
  assumes "findEvents2_loop rt email keyword params token events out = Some y"
  shows "\<not> (truthy token \<and> (\<exists>e. Events_list rt email (params\<lparr>pageToken := token\<rparr>) = Inl e))"
  using assms
proof (induction rt email keyword params token events out y rule: findEvents2_loop_induct)
  case (step loop rt email keyword params token events out y)
  note IH = step(1) and eq = step(2)
  show ?case
  proof
    assume a: "truthy token \<and> (\<exists>e. Events_list rt email (params\<lparr>pageToken := token\<rparr>) = Inl e)"
    then obtain e where e: "Events_list rt email (params\<lparr>pageToken := token\<rparr>) = Inl e"
      by blast
    with a eq have "loop rt email keyword params token events
        (out @ [RetrieveError email keyword e]) = Some y" by simp
    from IH[OF this] a show False by blast
  qed
qed

lemma findEvents2_loop_never_returns:
  assumes "Events_list rt email (params\<lparr>pageToken := token\<rparr>) = Inl e" and "truthy token"
  shows "findEvents2_loop rt email keyword params token events out = None"
proof (cases "findEvents2_loop rt email keyword params token events out")
  case None
  then show ?thesis .
next
  case (Some y)
  from findEvents2_loop_retry_aux[OF this] assms show ?thesis by blast
qed

lemma findEvents2_loop_log:
  assumes "findEvents2_loop rt email keyword params token events out = Some y"
  shows "\<exists>extra. fst y = out @ extra \<and> (\<forall>x\<in>set extra. \<exists>e. x = RetrieveError email keyword e)"
  using assms
proof (induction rt email keyword params token events out y rule: findEvents2_loop_induct)
  case (step loop rt email keyword params token events out y)
  note IH = step(1) and eq = step(2)
  show ?case
  proof (cases "Events_list rt email (params\<lparr>pageToken := token\<rparr>)")
    case (Inl e)
    show ?thesis
    proof (cases "truthy token")
      case True
      with Inl eq have "loop rt email keyword params token events
        (out @ [RetrieveError email keyword e]) = Some y" by simp
      from IH[OF this] obtain extra where
        "fst y = (out @ [RetrieveError email keyword e]) @ extra"
        "\<forall>x\<in>set extra. \<exists>e. x = RetrieveError email keyword e" by blast
      then have "fst y = out @ (RetrieveError email keyword e # extra) \<and>
        (\<forall>x\<in>set (RetrieveError email keyword e # extra). \<exists>e. x = RetrieveError email keyword e)"
        by simp
      then show ?thesis by blast
    next
      case False
      with Inl eq have "fst y = out @ [RetrieveError email keyword e]" by auto
      then show ?thesis by auto
    qed
  next
    case (Inr response)
    show ?thesis
    proof (cases "Array_filter (shouldImportEvent2 rt email keyword) (items response)")
      case (Inl err)
      with Inr eq have "fst y = out @ []" by auto
      then show ?thesis by (metis empty_iff list.set(1))
    next
      case passed: (Inr passed)
      show ?thesis
      proof (cases "truthy (nextPageToken response)")
        case True
        with Inr passed eq have "loop rt email keyword params (nextPageToken response)
          (events @ passed) out = Some y" by simp
        from IH[OF this] show ?thesis .
      next
        case False
        with Inr passed eq have "fst y = out @ []" by auto
        then show ?thesis by (metis empty_iff list.set(1))
      qed
    qed
  qed
qed

lemma findEvents2_loop_throws_TypeError:
  assumes "findEvents2_loop rt email keyword params token events out = Some y"
  shows "\<forall>err. snd y = Throws err \<longrightarrow> err = TypeError"
  using assms
proof (induction rt email keyword params token events out y rule: findEvents2_loop_induct)
  case (step loop rt email keyword params token events out y)
  note IH = step(1) and eq = step(2)
  show ?case
  proof (cases "Events_list rt email (params\<lparr>pageToken := token\<rparr>)")
    case (Inl e)
    with eq IH show ?thesis by (auto split: if_splits)
  next
    case (Inr response)
    show ?thesis
    proof (cases "Array_filter (shouldImportEvent2 rt email keyword) (items response)")
      case (Inl err)
      then have "err = TypeError"
        using Array_filter_error shouldImportEvent2_error by blast
      with Inl Inr eq show ?thesis by auto
    next
      case passed: (Inr passed)
      with Inr eq IH show ?thesis by (auto split: if_splits)
    qed
  qed
qed

lemma findEvents2_loop_import_forward:
  assumes "findEvents2_loop rt email keyword params token events out = Some y"
  shows "\<forall>imp. findEvents2_loop (rt\<lparr>Events_import := imp\<rparr>) email keyword params token events out = Some y"
  using assms
proof (induction rt email keyword params token events out y rule: findEvents2_loop_induct)
  case (step loop rt email keyword params token events out y)
  note IH = step(1) and eq = step(2)
  show ?case
  proof
    fix imp
    let ?rt = "rt\<lparr>Events_import := imp\<rparr>"
    have list: "Events_list ?rt = Events_list rt" by simp
    show "findEvents2_loop ?rt email keyword params token events out = Some y"
    proof (cases "Events_list rt email (params\<lparr>pageToken := token\<rparr>)")
      case (Inl e)
      show ?thesis
      proof (cases "truthy token")
        case True
        with Inl eq have "loop rt email keyword params token events
          (out @ [RetrieveError email keyword e]) = Some y" by simp
        from IH[OF this] have "findEvents2_loop ?rt email keyword params token events
          (out @ [RetrieveError email keyword e]) = Some y" by blast
        with Inl True show ?thesis by (subst findEvents2_loop.simps) (simp add: list)
      next
        case False
        with Inl eq show ?thesis by (subst findEvents2_loop.simps) (simp add: list)
      qed
    next
      case (Inr response)
      show ?thesis
      proof (cases "Array_filter (shouldImportEvent2 rt email keyword) (items response)")
        case (Inl err)
        with Inr eq show ?thesis
          by (subst findEvents2_loop.simps)
             (simp add: list shouldImportEvent2_import_irrelevant)
      next
        case passed: (Inr passed)
        show ?thesis
        proof (cases "truthy (nextPageToken response)")
          case True
          with Inr passed eq have "loop rt email keyword params (nextPageToken response)
            (events @ passed) out = Some y" by simp
          from IH[OF this] have "findEvents2_loop ?rt email keyword params
            (nextPageToken response) (events @ passed) out = Some y" by blast
          with Inr passed True show ?thesis
            by (subst findEvents2_loop.simps)
               (simp add: list shouldImportEvent2_import_irrelevant)
        next
          case False
          with Inr passed eq show ?thesis
            by (subst findEvents2_loop.simps)
               (simp add: list shouldImportEvent2_import_irrelevant)
        qed
      qed
    qed
  qed
qed

lemma findEvents2_loop_import_irrelevant:
  "findEvents2_loop (rt\<lparr>Events_import := imp\<rparr>) email keyword params token events out =
   findEvents2_loop rt email keyword params token events out"
proof (cases "findEvents2_loop rt email keyword params token events out")
  case (Some y)
  with findEvents2_loop_import_forward[OF Some] show ?thesis by simp
next
  case None
  show ?thesis
  proof (cases "findEvents2_loop (rt\<lparr>Events_import := imp\<rparr>) email keyword params token events out")
    case None': None
    with None show ?thesis by simp
  next
    case (Some y)
    from findEvents2_loop_import_forward[OF Some]
    have "findEvents2_loop (rt\<lparr>Events_import := imp, Events_import := Events_import rt\<rparr>)
            email keyword params token events out = Some y" by blast
    then have "findEvents2_loop rt email keyword params token events out = Some y" by simp
    with None show ?thesis by simp
  qed
qed

lemma findEvents2_import_irrelevant:
  "findEvents2 (rt\<lparr>Events_import := imp\<rparr>) = findEvents2 rt"
  by (intro ext)
     (simp add: findEvents2_def findEvents2_loop_import_irrelevant formatDateAsRFC3339_2_def
        Let_def split: option.splits)

subsection \<open>The loops of a pass\<close>

lemma returned_cases:
  obtains (None) "r = None" | (Throws) out e where "r = Some (out, Throws e)"
  | (Returns) out events where "r = Some (out, Returns events)"
proof (cases r)
  case None
  then show ?thesis using that by blast
next
  case (Some p)
  obtain out x where p: "p = (out, x)" by (cases p)
  show ?thesis
  proof (cases x)
    case (Returns events)
    with Some p show ?thesis using that by blast
  next
    case (Throws e)
    with Some p show ?thesis using that by blast
  qed
qed

lemma returned_iff: "returned r \<longleftrightarrow> (\<exists>out events. r = Some (out, Returns events))"
  by (cases r rule: returned_cases) (auto simp: returned_def)

lemma logged_failures_append [simp]:
  "logged_failures (a @ b) = logged_failures a @ logged_failures b"
  by (simp add: logged_failures_def)

lemma import_failures_append [simp]:
  "import_failures imp (a @ b) = import_failures imp a @ import_failures imp b"
  by (simp add: import_failures_def)

lemma pass_effect_refl: "pass_effect rt cfg w w []"
  by (simp add: pass_effect_def import_failures_def)

lemma pass_effect_trans:
  "pass_effect rt cfg w w1 xs \<Longrightarrow> pass_effect rt cfg w1 w2 ys \<Longrightarrow> pass_effect rt cfg w w2 (xs @ ys)"
  by (simp add: pass_effect_def)

lemma importEvent2_effect:
  "pass_effect rt cfg w (importEvent2 rt cfg username event w) [(username, event)]"
  by (simp add: pass_effect_def importEvent2_def Let_def import_call_def import_failures_def
        logged_failures_def split: sum.splits)

lemma forEach_event_effect:
  "\<exists>w'. forEach_event rt cfg username events count w = (count + length events, w') \<and>
        pass_effect rt cfg w w' (map (Pair username) events)"
proof (induction events arbitrary: count w)
  case Nil
  show ?case by (simp add: pass_effect_refl)
next
  case (Cons event events)
  let ?w1 = "importEvent2 rt cfg username event w"
  from Cons[of "count + 1" ?w1] obtain w' where
    w': "forEach_event rt cfg username events (count + 1) ?w1 = (count + 1 + length events, w')"
        "pass_effect rt cfg ?w1 w' (map (Pair username) events)" by blast
  from pass_effect_trans[OF importEvent2_effect w'(2)]
  have "pass_effect rt cfg w w' (map (Pair username) (event # events))" by simp
  with w'(1) show ?case by simp
qed

lemma retrieve_log_effect:
  assumes "\<forall>x\<in>set out. \<exists>e. x = RetrieveError email keyword e"
  shows "pass_effect rt cfg w (w\<lparr>console := console w @ out\<rparr>) []"
proof -
  from assms have "logged_failures out = []"
    by (induction out) (auto simp: logged_failures_def)
  then show ?thesis by (simp add: pass_effect_def import_failures_def)
qed

lemma findEvents2_log:
  assumes "findEvents2 rt email keyword t m l = Some (out, r)"
  shows "\<forall>x\<in>set out. \<exists>e. x = RetrieveError email keyword e"
proof -
  from assms obtain params where
    "findEvents2_loop rt email keyword params None [] [] = Some (out, r)"
    by (auto simp: findEvents2_def Let_def)
  from findEvents2_loop_log[OF this] show ?thesis by auto
qed

lemma findEvents2_throws_TypeError:
  assumes "findEvents2 rt email keyword t m l = Some (out, Throws e)"
  shows "e = TypeError"
proof -
  from assms obtain params where
    "findEvents2_loop rt email keyword params None [] [] = Some (out, Throws e)"
    by (auto simp: findEvents2_def Let_def)
  from findEvents2_loop_throws_TypeError[OF this] show ?thesis by auto
qed

lemma sources_Nil [simp]: "sources f [] ks = []" "sources f [email] [] = []"
  by (simp_all add: sources_def)

lemma sources_keyword_Cons:
  "sources f [email] (keyword # ks) =
   map (Pair (split_at_first email)) (f email keyword) @ sources f [email] ks"
  by (simp add: sources_def)

lemma sources_user_Cons: "sources f (email # emails) ks = sources f [email] ks @ sources f emails ks"
  by (simp add: sources_def)

lemma forEach_keyword_effect:
  assumes "\<forall>keyword\<in>set ks. returned (findEvents2 rt email keyword t m l)"
  shows "\<exists>w'. forEach_keyword rt cfg email t m l ks count w =
                 Some (w', Returns (count + length (sources (found rt t m l) [email] ks))) \<and>
              pass_effect rt cfg w w' (sources (found rt t m l) [email] ks)"
  using assms
proof (induction ks arbitrary: count w)
  case Nil
  show ?case by (simp add: pass_effect_refl)
next
  case (Cons keyword ks)
  from Cons.prems have "returned (findEvents2 rt email keyword t m l)" by simp
  then obtain out events where q: "findEvents2 rt email keyword t m l = Some (out, Returns events)"
    unfolding returned_iff by blast
  let ?w0 = "w\<lparr>console := console w @ out\<rparr>"
  have e0: "pass_effect rt cfg w ?w0 []"
    using retrieve_log_effect[OF findEvents2_log[OF q]] .
  obtain w1 where w1:
    "forEach_event rt cfg (split_at_first email) events count ?w0 = (count + length events, w1)"
    "pass_effect rt cfg ?w0 w1 (map (Pair (split_at_first email)) events)"
    using forEach_event_effect by blast
  from Cons.prems have "\<forall>keyword\<in>set ks. returned (findEvents2 rt email keyword t m l)"
    by simp
  from Cons.IH[OF this, of "count + length events" w1] obtain w' where w':
    "forEach_keyword rt cfg email t m l ks (count + length events) w1 =
       Some (w', Returns (count + length events + length (sources (found rt t m l) [email] ks)))"
    "pass_effect rt cfg w1 w' (sources (found rt t m l) [email] ks)" by blast
  have src: "sources (found rt t m l) [email] (keyword # ks) =
             map (Pair (split_at_first email)) events @ sources (found rt t m l) [email] ks"
    using q by (simp add: sources_keyword_Cons events_of_def)
  have "pass_effect rt cfg w w' (sources (found rt t m l) [email] (keyword # ks))"
    using pass_effect_trans[OF pass_effect_trans[OF e0 w1(2)] w'(2)] src by simp
  moreover have "forEach_keyword rt cfg email t m l (keyword # ks) count w =
     Some (w', Returns (count + length (sources (found rt t m l) [email] (keyword # ks))))"
    using q w1(1) w'(1) src by (simp add: add.assoc)
  ultimately show ?case by blast
qed

lemma forEach_user_effect:
  assumes "\<forall>email\<in>set emails. \<forall>keyword\<in>set (KEYWORDS2 cfg).
             returned (findEvents2 rt email keyword t m l)"
  shows "\<exists>w'. forEach_user rt cfg t m l emails count w =
                 Some (w', Returns (count + length (sources (found rt t m l) emails (KEYWORDS2 cfg)))) \<and>
              pass_effect rt cfg w w' (sources (found rt t m l) emails (KEYWORDS2 cfg))"
  using assms
proof (induction emails arbitrary: count w)
  case Nil
  show ?case by (simp add: pass_effect_refl)
next
  case (Cons email emails)
  let ?ks = "sources (found rt t m l) [email] (KEYWORDS2 cfg)"
  from Cons.prems have "\<forall>keyword\<in>set (KEYWORDS2 cfg). returned (findEvents2 rt email keyword t m l)"
    by simp
  from forEach_keyword_effect[OF this, of cfg count w] obtain w1 where w1:
    "forEach_keyword rt cfg email t m l (KEYWORDS2 cfg) count w =
       Some (w1, Returns (count + length ?ks))"
    "pass_effect rt cfg w w1 ?ks" by blast
  from Cons.prems have "\<forall>email\<in>set emails. \<forall>keyword\<in>set (KEYWORDS2 cfg).
             returned (findEvents2 rt email keyword t m l)" by simp
  from Cons.IH[OF this, of "count + length ?ks" w1] obtain w' where w':
    "forEach_user rt cfg t m l emails (count + length ?ks) w1 =
       Some (w', Returns (count + length ?ks + length (sources (found rt t m l) emails (KEYWORDS2 cfg))))"
    "pass_effect rt cfg w1 w' (sources (found rt t m l) emails (KEYWORDS2 cfg))" by blast
  have src: "sources (found rt t m l) (email # emails) (KEYWORDS2 cfg) = ?ks @ sources (found rt t m l) emails (KEYWORDS2 cfg)"
    by (rule sources_user_Cons)
  have "pass_effect rt cfg w w' (sources (found rt t m l) (email # emails) (KEYWORDS2 cfg))"
    using pass_effect_trans[OF w1(2) w'(2)] src by simp
  moreover have "forEach_user rt cfg t m l (email # emails) count w =
     Some (w', Returns (count + length (sources (found rt t m l) (email # emails) (KEYWORDS2 cfg))))"
    using w1(1) w'(1) src by (simp add: add.assoc)
  ultimately show ?case by blast
qed


lemma forEach_keyword_store:
  assumes "forEach_keyword rt cfg email t m l ks count w = Some (w', r)"
  shows "properties w' = properties w \<and> triggers w' = triggers w \<and> clock w' = clock w"
  using assms
proof (induction ks arbitrary: count w)
  case Nil
  then show ?case by simp
next
  case (Cons keyword ks)
  show ?case
  proof (cases "findEvents2 rt email keyword t m l" rule: returned_cases)
    case None
    with Cons.prems show ?thesis by simp
  next
    case (Throws out e)
    with Cons.prems show ?thesis by auto
  next
    case (Returns out events)
    let ?w0 = "w\<lparr>console := console w @ out\<rparr>"
    obtain w1 where w1:
      "forEach_event rt cfg (split_at_first email) events count ?w0 = (count + length events, w1)"
      "pass_effect rt cfg ?w0 w1 (map (Pair (split_at_first email)) events)"
      using forEach_event_effect by blast
    with Cons.prems Returns
    have "forEach_keyword rt cfg email t m l ks (count + length events) w1 = Some (w', r)"
      by simp
    from Cons.IH[OF this] w1(2) show ?thesis by (simp add: pass_effect_def)
  qed
qed

lemma forEach_user_store:
  assumes "forEach_user rt cfg t m l emails count w = Some (w', r)"
  shows "properties w' = properties w \<and> triggers w' = triggers w \<and> clock w' = clock w"
  using assms
proof (induction emails arbitrary: count w)
  case Nil
  then show ?case by simp
next
  case (Cons email emails)
  show ?case
  proof (cases "forEach_keyword rt cfg email t m l (KEYWORDS2 cfg) count w")
    case None
    with Cons.prems show ?thesis by simp
  next
    case (Some p)
    obtain w1 r1 where p: "p = (w1, r1)" by (cases p)
    note st = forEach_keyword_store[OF Some[unfolded p]]
    show ?thesis
    proof (cases r1)
      case (Throws e)
      with Cons.prems Some p st show ?thesis by auto
    next
      case (Returns count')
      with Cons.prems Some p
      have "forEach_user rt cfg t m l emails count' w1 = Some (w', r)" by simp
      from Cons.IH[OF this] st show ?thesis by simp
    qed
  qed
qed

lemma forEach_keyword_throws:
  assumes "\<forall>keyword\<in>set ks. findEvents2 rt email keyword t m l \<noteq> None"
    and "\<exists>keyword\<in>set ks. \<not> returned (findEvents2 rt email keyword t m l)"
  shows "\<exists>w'. forEach_keyword rt cfg email t m l ks count w = Some (w', Throws TypeError)"
  using assms
proof (induction ks arbitrary: count w)
  case Nil
  then show ?case by simp
next
  case (Cons keyword ks)
  show ?case
  proof (cases "findEvents2 rt email keyword t m l" rule: returned_cases)
    case None
    with Cons.prems(1) show ?thesis by simp
  next
    case (Throws out e)
    then have "e = TypeError" by (rule findEvents2_throws_TypeError)
    with Throws show ?thesis by simp
  next
    case (Returns out events)
    then have "returned (findEvents2 rt email keyword t m l)" by (simp add: returned_iff)
    with Cons.prems have rest: "\<forall>keyword\<in>set ks. findEvents2 rt email keyword t m l \<noteq> None"
      "\<exists>keyword\<in>set ks. \<not> returned (findEvents2 rt email keyword t m l)" by auto
    let ?w0 = "w\<lparr>console := console w @ out\<rparr>"
    obtain w1 where w1:
      "forEach_event rt cfg (split_at_first email) events count ?w0 = (count + length events, w1)"
      using forEach_event_effect by blast
    from Cons.IH[OF rest, of "count + length events" w1] Returns w1 show ?thesis by simp
  qed
qed

lemma forEach_user_throws:
  assumes "\<forall>email\<in>set emails. \<forall>keyword\<in>set (KEYWORDS2 cfg). findEvents2 rt email keyword t m l \<noteq> None"
    and "\<exists>email\<in>set emails. \<exists>keyword\<in>set (KEYWORDS2 cfg).
           \<not> returned (findEvents2 rt email keyword t m l)"
  shows "\<exists>w'. forEach_user rt cfg t m l emails count w = Some (w', Throws TypeError)"
  using assms
proof (induction emails arbitrary: count w)
  case Nil
  then show ?case by simp
next
  case (Cons email emails)
  from Cons.prems(1) have here: "\<forall>keyword\<in>set (KEYWORDS2 cfg). findEvents2 rt email keyword t m l \<noteq> None"
    by simp
  show ?case
  proof (cases "\<exists>keyword\<in>set (KEYWORDS2 cfg). \<not> returned (findEvents2 rt email keyword t m l)")
    case True
    from forEach_keyword_throws[OF here True, of cfg count w] show ?thesis by auto
  next
    case False
    then have "\<forall>keyword\<in>set (KEYWORDS2 cfg). returned (findEvents2 rt email keyword t m l)"
      by blast
    from forEach_keyword_effect[OF this, of cfg count w] obtain w1 c1 where w1:
      "forEach_keyword rt cfg email t m l (KEYWORDS2 cfg) count w = Some (w1, Returns c1)"
      by blast
    from Cons.prems False have rest:
      "\<forall>email\<in>set emails. \<forall>keyword\<in>set (KEYWORDS2 cfg). findEvents2 rt email keyword t m l \<noteq> None"
      "\<exists>email\<in>set emails. \<exists>keyword\<in>set (KEYWORDS2 cfg).
           \<not> returned (findEvents2 rt email keyword t m l)" by auto
    from Cons.IH[OF rest, of c1 w1] w1 show ?thesis by simp
  qed
qed

subsection \<open>shouldImportEvent2: faults\<close>

lemma shouldImportEvent2_total:
  assumes "summary event = Some s" and "start event = Some st"
  shows "\<exists>b. shouldImportEvent2 rt email keyword event = Inr b"
  using assms
  by (auto simp: shouldImportEvent2_def Let_def split: option.splits)

lemma shouldImportEvent2_no_summary:
  "summary event = None \<Longrightarrow> shouldImportEvent2 rt email keyword event = Inl TypeError"
  by (simp add: shouldImportEvent2_def)

lemma shouldImportEvent2_no_start:
  "summary event = Some s \<Longrightarrow> 0 \<le> indexOf (toLowerCase s) keyword \<Longrightarrow> start event = None \<Longrightarrow>
   shouldImportEvent2 rt email keyword event = Inl TypeError"
  by (simp add: shouldImportEvent2_def)

subsection \<open>A whole pass\<close>

lemma query_import_irrelevant: "query (rt\<lparr>Events_import := imp\<rparr>) = query rt"
  by (intro ext) (simp add: query_def findEvents2_import_irrelevant split: option.splits)

lemma pass_events_import_irrelevant:
  "pass_events (rt\<lparr>Events_import := imp\<rparr>) = pass_events rt"
  by (intro ext) (simp add: pass_events_def query_import_irrelevant)

lemma sync2_returns:
  assumes "\<forall>email\<in>set (USER_EMAILS2 cfg). \<forall>keyword\<in>set (KEYWORDS2 cfg).
             returned (query rt cfg w email keyword)"
  shows "\<exists>w1. pass_effect rt cfg w w1 (pass_events rt cfg w) \<and>
              sync2 rt cfg w =
                Some (w1\<lparr>properties := (properties w)(''lastRun'' \<mapsto> dateToString rt (Some (clock w))),
                         console := console w1 @ [Imported (length (pass_events rt cfg w))]\<rparr>,
                      Returns ())"
proof -
  let ?t = "Some (clock w)"
  let ?m = "addMonths rt (Some (clock w)) (MONTHS_IN_ADVANCE2 cfg)"
  let ?l = "case properties w ''lastRun'' of
              None \<Rightarrow> None
            | Some s \<Rightarrow> if s \<noteq> [] then Some (parseDate rt s) else None"
  have src: "pass_events rt cfg w = sources (found rt ?t ?m ?l) (USER_EMAILS2 cfg) (KEYWORDS2 cfg)"
    by (simp add: pass_events_def query_def)
  from assms have "\<forall>email\<in>set (USER_EMAILS2 cfg). \<forall>keyword\<in>set (KEYWORDS2 cfg).
      returned (findEvents2 rt email keyword ?t ?m ?l)"
    by (simp add: query_def)
  from forEach_user_effect[OF this, of 0 w] obtain w1 where w1:
    "forEach_user rt cfg ?t ?m ?l (USER_EMAILS2 cfg) 0 w =
       Some (w1, Returns (length (pass_events rt cfg w)))"
    "pass_effect rt cfg w w1 (pass_events rt cfg w)"
    unfolding src by auto
  from w1(2) have "properties w1 = properties w" by (simp add: pass_effect_def)
  with w1(1) have "sync2 rt cfg w =
      Some (w1\<lparr>properties := (properties w)(''lastRun'' \<mapsto> dateToString rt (Some (clock w))),
               console := console w1 @ [Imported (length (pass_events rt cfg w))]\<rparr>,
            Returns ())"
    by (simp add: sync2_def)
  with w1(2) show ?thesis by blast
qed

lemma sync2_throws:
  assumes "\<forall>email\<in>set (USER_EMAILS2 cfg). \<forall>keyword\<in>set (KEYWORDS2 cfg).
             query rt cfg w email keyword \<noteq> None"
    and "\<exists>email\<in>set (USER_EMAILS2 cfg). \<exists>keyword\<in>set (KEYWORDS2 cfg).
           \<not> returned (query rt cfg w email keyword)"
  shows "\<exists>w'. sync2 rt cfg w = Some (w', Throws TypeError) \<and> properties w' = properties w"
proof -
  let ?t = "Some (clock w)"
  let ?m = "addMonths rt (Some (clock w)) (MONTHS_IN_ADVANCE2 cfg)"
  let ?l = "case properties w ''lastRun'' of
              None \<Rightarrow> None
            | Some s \<Rightarrow> if s \<noteq> [] then Some (parseDate rt s) else None"
  from assms have a: "\<forall>email\<in>set (USER_EMAILS2 cfg). \<forall>keyword\<in>set (KEYWORDS2 cfg).
             findEvents2 rt email keyword ?t ?m ?l \<noteq> None"
    and b: "\<exists>email\<in>set (USER_EMAILS2 cfg). \<exists>keyword\<in>set (KEYWORDS2 cfg).
           \<not> returned (findEvents2 rt email keyword ?t ?m ?l)"
    by (simp_all add: query_def)
  from forEach_user_throws[OF a b, of 0 w] obtain w' where w':
    "forEach_user rt cfg ?t ?m ?l (USER_EMAILS2 cfg) 0 w = Some (w', Throws TypeError)" by blast
  from forEach_user_store[OF this] have "properties w' = properties w" by simp
  moreover from w' have "sync2 rt cfg w = Some (w', Throws TypeError)" by (simp add: sync2_def)
  ultimately show ?thesis by blast
qed

lemma sync2_triggers:
  assumes "sync2 rt cfg w = Some (w', r)"
  shows "triggers w' = triggers w"
proof -
  let ?t = "Some (clock w)"
  let ?m = "addMonths rt (Some (clock w)) (MONTHS_IN_ADVANCE2 cfg)"
  let ?l = "case properties w ''lastRun'' of
              None \<Rightarrow> None
            | Some s \<Rightarrow> if s \<noteq> [] then Some (parseDate rt s) else None"
  show ?thesis
  proof (cases "forEach_user rt cfg ?t ?m ?l (USER_EMAILS2 cfg) 0 w")
    case None
    with assms show ?thesis by (simp add: sync2_def)
  next
    case (Some p)
    obtain w1 r1 where p: "p = (w1, r1)" by (cases p)
    from forEach_user_store[OF Some[unfolded p]] have "triggers w1 = triggers w" by simp
    with assms Some p show ?thesis by (cases r1) (auto simp: sync2_def)
  qed
qed

lemma findEvents2_first_request_fails:
  assumes "\<forall>params. pageToken params = None \<longrightarrow> Events_list rt email params = Inl e"
  shows "findEvents2 rt email keyword t m l = Some ([RetrieveError email keyword e], Returns [])"
proof -
  have "findEvents2_loop rt email keyword params None [] [] =
        Some ([] @ [RetrieveError email keyword e], Returns [])" for params
    using assms by (intro findEvents2_loop_first_page_fails) (simp_all add: truthy_def)
  then show ?thesis by (simp add: findEvents2_def Let_def)
qed

lemma findEvents2_item_without_summary:
  assumes "\<forall>params. pageToken params = None \<longrightarrow> Events_list rt email params = Inr response"
    and "event \<in> set (items response)" and "summary event = None"
  shows "findEvents2 rt email keyword t m l = Some ([], Throws TypeError)"
proof -
  have "shouldImportEvent2 rt email keyword event = Inl TypeError"
    using assms(3) by (simp add: shouldImportEvent2_def)
  from Array_filter_Inl[where f = "shouldImportEvent2 rt email keyword", OF assms(2) this] obtain e' where
    e': "Array_filter (shouldImportEvent2 rt email keyword) (items response) = Inl e'" by blast
  then have "e' = TypeError" using Array_filter_error shouldImportEvent2_error by blast
  with e' have "findEvents2_loop rt email keyword params None [] [] = Some ([], Throws TypeError)"
    for params
    using assms(1) by (intro findEvents2_loop_throws[where response = response]) simp_all
  then show ?thesis by (simp add: findEvents2_def Let_def)
qed

lemma findEvents2_later_request_fails:
  assumes "\<forall>params. pageToken params = None \<longrightarrow> Events_list rt email params = Inr response"
    and "\<forall>event\<in>set (items response). summary event \<noteq> None \<and> start event \<noteq> None"
    and "truthy (nextPageToken response)"
    and "\<forall>params. pageToken params = nextPageToken response \<longrightarrow>
           Events_list rt email params = Inl e"
  shows "findEvents2 rt email keyword t m l = None"
proof -
  have "\<forall>x\<in>set (items response). \<exists>b. shouldImportEvent2 rt email keyword x = Inr b"
    using assms(2) shouldImportEvent2_total by fastforce
  from Array_filter_Inr[OF this] obtain passed where
    p: "Array_filter (shouldImportEvent2 rt email keyword) (items response) = Inr passed" by blast
  have "findEvents2_loop rt email keyword params None [] [] = None" for params
  proof -
    have "findEvents2_loop rt email keyword params None [] [] =
          findEvents2_loop rt email keyword params (nextPageToken response) ([] @ passed) []"
      using assms(1,3) p by (intro findEvents2_loop_next_page) simp_all
    also have "\<dots> = None"
      using assms(3,4) by (intro findEvents2_loop_never_returns[where e = e]) simp_all
    finally show ?thesis .
  qed
  then show ?thesis by (simp add: findEvents2_def Let_def)
qed

subsection \<open>findEvents2: a provider failure\<close>

text \<open>
  A failure of the first request is handled as the claim C3 says: one line is logged,
  the pair gives no event, and \<open>findEvents2\<close> returns
  (\<open>findEvents2_first_request_fails\<close>). A failure of a later request is not: the
  \<open>continue\<close> leads to the test \<open>while (pageToken)\<close>, the token of the failed request is
  still set, and the same request is made again. While it fails, the loop goes on
  (\<open>findEvents2_loop_never_returns\<close>, \<open>findEvents2_later_request_fails\<close>).

  C3. With a provider that sends one page and fails on the next, \<open>findEvents2\<close> does not
  return, for any user, keyword and dates, and neither does the pass.
\<close>

theorem findEvents2_later_page_failure_never_returns:
  "findEvents2 runtime_second_page_fails email keyword t m l = None \<and>
   sync2 runtime_second_page_fails example_config example_world = None"
proof -
  let ?response = "\<lparr>items = [event_team_pto], nextPageToken = Some ''page2''\<rparr>"
  have 1: "\<forall>params. pageToken params = None \<longrightarrow>
             Events_list runtime_second_page_fails email params = Inr ?response" for email
    by (simp add: runtime_second_page_fails_def)
  have 2: "\<forall>event\<in>set (items ?response). summary event \<noteq> None \<and> start event \<noteq> None"
    by (simp add: event_team_pto_def)
  have 3: "truthy (nextPageToken ?response)" by (simp add: truthy_def)
  have 4: "\<forall>params. pageToken params = nextPageToken ?response \<longrightarrow>
             Events_list runtime_second_page_fails email params = Inl ''Backend Error''" for email
    by (simp add: runtime_second_page_fails_def)
  have hang: "findEvents2 runtime_second_page_fails email keyword t m l = None"
    for email keyword t m l
    by (rule findEvents2_later_request_fails[OF 1 2 3 4])
  then have "sync2 runtime_second_page_fails example_config example_world = None"
    by (simp add: sync2_def example_config_def source_KEYWORDS2_def)
  with hang show ?thesis by simp
qed

subsection \<open>sync2: the watermark\<close>

text \<open>
  C4, as stated: every run of \<open>sync2\<close> ends by storing the current time under
  \<open>lastRun\<close>. A run in which the provider sends an event without summary throws in
  \<open>shouldImportEvent2\<close>, outside every \<open>try\<close>, and stores nothing.
\<close>

theorem sync2_cancelled_item_counterexample:
  "properties example_world ''lastRun'' = None \<and>
   outcome_of (sync2 runtime_cancelled_item example_config example_world) = Some (Throws TypeError) \<and>
   lastRun_after (sync2 runtime_cancelled_item example_config example_world) = Some None"
  by code_simp

text \<open>
  C4, amended: a run in which every call of \<open>findEvents2\<close> returns ends by storing the
  current time under \<open>lastRun\<close>, whatever the provider answers to the imports: every
  source event is imported once, every refused import is logged, and the run goes on.
\<close>

theorem sync2_persists_lastRun:
  assumes "\<forall>email\<in>set (USER_EMAILS2 cfg). \<forall>keyword\<in>set (KEYWORDS2 cfg).
             returned (query rt cfg w email keyword)"
  shows "\<forall>imp. \<exists>w'.
           sync2 (rt\<lparr>Events_import := imp\<rparr>) cfg w = Some (w', Returns ()) \<and>
           properties w' = (properties w)(''lastRun'' \<mapsto> dateToString rt (Some (clock w))) \<and>
           importCalls w' = importCalls w @ map (import_call cfg) (pass_events rt cfg w) \<and>
           logged_failures (console w') =
             logged_failures (console w) @
             import_failures imp (map (import_call cfg) (pass_events rt cfg w))"
proof
  fix imp
  let ?rt = "rt\<lparr>Events_import := imp\<rparr>"
  from assms have "\<forall>email\<in>set (USER_EMAILS2 cfg). \<forall>keyword\<in>set (KEYWORDS2 cfg).
             returned (query ?rt cfg w email keyword)"
    by (simp add: query_import_irrelevant)
  from sync2_returns[OF this] obtain w1 where
    eff: "pass_effect ?rt cfg w w1 (pass_events rt cfg w)"
    and run: "sync2 ?rt cfg w =
      Some (w1\<lparr>properties := (properties w)(''lastRun'' \<mapsto> dateToString rt (Some (clock w))),
               console := console w1 @ [Imported (length (pass_events rt cfg w))]\<rparr>,
            Returns ())"
    by (auto simp: pass_events_import_irrelevant)
  let ?w' = "w1\<lparr>properties := (properties w)(''lastRun'' \<mapsto> dateToString rt (Some (clock w))),
               console := console w1 @ [Imported (length (pass_events rt cfg w))]\<rparr>"
  have "properties ?w' = (properties w)(''lastRun'' \<mapsto> dateToString rt (Some (clock w)))"
    by simp
  moreover have "importCalls ?w' = importCalls w @ map (import_call cfg) (pass_events rt cfg w)"
    using eff by (simp add: pass_effect_def)
  moreover have "logged_failures (console ?w') =
             logged_failures (console w) @
             import_failures imp (map (import_call cfg) (pass_events rt cfg w))"
    using eff by (simp add: pass_effect_def logged_failures_def)
  ultimately show "\<exists>w'.
           sync2 ?rt cfg w = Some (w', Returns ()) \<and>
           properties w' = (properties w)(''lastRun'' \<mapsto> dateToString rt (Some (clock w))) \<and>
           importCalls w' = importCalls w @ map (import_call cfg) (pass_events rt cfg w) \<and>
           logged_failures (console w') =
             logged_failures (console w) @
             import_failures imp (map (import_call cfg) (pass_events rt cfg w))"
    using run by blast
qed

theorem sync2_persists_lastRun_witness:
  "\<exists>w'. sync2 (runtime_one_event\<lparr>Events_import := refuse_import\<rparr>) example_config example_world =
           Some (w', Returns ()) \<and>
         properties w' ''lastRun'' = Some ''2024-11-04T09:00:00Z'' \<and>
         length (importCalls w') = 2 \<and>
         logged_failures (console w') = [''Forbidden'', ''Forbidden'']"
proof -
  have q: "\<forall>email\<in>set (USER_EMAILS2 example_config). \<forall>keyword\<in>set (KEYWORDS2 example_config).
             returned (query runtime_one_event example_config example_world email keyword)"
    by code_simp
  have p: "pass_events runtime_one_event example_config example_world =
           [(''bob'', event_pto_vacation), (''bob'', event_pto_vacation)]"
    by code_simp
  have d: "dateToString runtime_one_event (Some (clock example_world)) = ''2024-11-04T09:00:00Z''"
    by code_simp
  have c: "importCalls example_world = []" "console example_world = []"
    by (simp_all add: example_world_def)
  have f: "import_failures refuse_import
             (map (import_call example_config) [(''bob'', event_pto_vacation), (''bob'', event_pto_vacation)]) =
           [''Forbidden'', ''Forbidden'']"
    by code_simp
  from sync2_persists_lastRun[OF q, rule_format, of refuse_import]
  show ?thesis unfolding p d c f by (auto simp: logged_failures_def)
qed

subsection \<open>importEvent2: the mirrored event\<close>

text \<open>
  C6. For every user name and event, the event that \<open>importEvent2\<close> passes to the
  provider has the summary \<open>'[' + username + '] ' + event.summary\<close>, the team calendar
  as its organizer, no attendees and the event type \<open>default\<close>; when the source event
  was of another type, its \<open>outOfOfficeProperties\<close> and \<open>focusTimeProperties\<close> are
  deleted. The provider is called once, with that event and the team calendar's id.
\<close>

theorem importEvent2_mirrors:
  assumes "m = toMirroredEvent cfg username event"
  shows "summary m = Some (''['' @ username @ ''] '' @ js_string (summary event)) \<and>
         organizer m =
           Some \<lparr>organizer_id = Some (TEAM_CALENDAR_ID2 cfg), organizer_email = None\<rparr> \<and>
         attendees m = Some [] \<and>
         eventType m = Some ''default'' \<and>
         (eventType event \<noteq> Some ''default'' \<longrightarrow>
            outOfOfficeProperties m = None \<and> focusTimeProperties m = None) \<and>
         start m = start event \<and>
         importCalls (importEvent2 rt cfg username event w) =
           importCalls w @ [(m, TEAM_CALENDAR_ID2 cfg)]"
  using assms
  by (auto simp: toMirroredEvent_def importEvent2_def Let_def split: sum.splits)

theorem importEvent2_mirrors_witness:
  "eventType event_pto_vacation \<noteq> Some ''default'' \<and>
   toMirroredEvent example_config ''alice'' event_pto_vacation =
     \<lparr>summary = Some ''[alice] PTO vacation'',
      start = Some \<lparr>dateTime = None, date = Some ''2024-11-05''\<rparr>,
      organizer = Some \<lparr>organizer_id = Some ''team@group.calendar.example.com'',
                        organizer_email = None\<rparr>,
      attendees = Some [], eventType = Some ''default'',
      outOfOfficeProperties = None, focusTimeProperties = None\<rparr> \<and>
   importCalls (importEvent2 example_runtime example_config ''alice'' event_pto_vacation example_world) =
     [(toMirroredEvent example_config ''alice'' event_pto_vacation,
       ''team@group.calendar.example.com'')]"
proof -
  have t: "eventType event_pto_vacation \<noteq> Some ''default''" by code_simp
  have e: "toMirroredEvent example_config ''alice'' event_pto_vacation =
     \<lparr>summary = Some ''[alice] PTO vacation'',
      start = Some \<lparr>dateTime = None, date = Some ''2024-11-05''\<rparr>,
      organizer = Some \<lparr>organizer_id = Some ''team@group.calendar.example.com'',
                        organizer_email = None\<rparr>,
      attendees = Some [], eventType = Some ''default'',
      outOfOfficeProperties = None, focusTimeProperties = None\<rparr>" by code_simp
  have c: "importCalls example_world = []" "TEAM_CALENDAR_ID2 example_config = ''team@group.calendar.example.com''"
    by (simp_all add: example_world_def example_config_def)
  from importEvent2_mirrors[OF refl, of example_config "''alice''" event_pto_vacation
      example_runtime example_world] t e c
  show ?thesis by simp
qed

subsection \<open>sync2: one import for every pair that finds the event\<close>
















subsection \<open>setup2\<close>

text \<open>
  C8. Called in a world without triggers, \<open>setup2\<close> registers one hourly trigger for
  \<open>sync2\<close> and runs the first pass, which leaves the triggers alone. Called while a
  trigger exists, it throws and changes nothing. So a second call after a first one
  throws, and the trigger of the first call is still the only one.
\<close>

theorem setup2_registers_once:
  "(triggers w = [] \<longrightarrow>
      setup2 rt cfg w = sync2 rt cfg (w\<lparr>triggers := [\<lparr>handler = ''sync2'', everyHours = 1\<rparr>]\<rparr>)) \<and>
   (triggers w \<noteq> [] \<longrightarrow>
      setup2 rt cfg w = Some (w, Throws (Error ''Triggers are already setup.''))) \<and>
   (triggers w = [] \<and> setup2 rt cfg w = Some (w1, r1) \<longrightarrow>
      triggers w1 = [\<lparr>handler = ''sync2'', everyHours = 1\<rparr>] \<and>
      setup2 rt cfg w1 = Some (w1, Throws (Error ''Triggers are already setup.'')))"
proof (intro conjI impI)
  assume "triggers w = []"
  then show "setup2 rt cfg w = sync2 rt cfg (w\<lparr>triggers := [\<lparr>handler = ''sync2'', everyHours = 1\<rparr>]\<rparr>)"
    by (simp add: setup2_def)
next
  assume "triggers w \<noteq> []"
  then show "setup2 rt cfg w = Some (w, Throws (Error ''Triggers are already setup.''))"
    by (simp add: setup2_def)
next
  assume a: "triggers w = [] \<and> setup2 rt cfg w = Some (w1, r1)"
  then have "triggers w = []" and "setup2 rt cfg w = Some (w1, r1)" by simp_all
  then have "sync2 rt cfg (w\<lparr>triggers := [\<lparr>handler = ''sync2'', everyHours = 1\<rparr>]\<rparr>) = Some (w1, r1)"
    by (simp add: setup2_def)
  from sync2_triggers[OF this]
  show "triggers w1 = [\<lparr>handler = ''sync2'', everyHours = 1\<rparr>]" by simp
  then show "setup2 rt cfg w1 = Some (w1, Throws (Error ''Triggers are already setup.''))"
    by (simp add: setup2_def)
qed

theorem setup2_registers_once_witness:
  "triggers example_world = [] \<and>
   (\<exists>w1. setup2 example_runtime example_config example_world = Some (w1, Returns ()) \<and>
          triggers w1 = [\<lparr>handler = ''sync2'', everyHours = 1\<rparr>] \<and>
          setup2 example_runtime example_config w1 =
            Some (w1, Throws (Error ''Triggers are already setup.'')))"
proof -
  have t: "triggers example_world = []" by (simp add: example_world_def)
  have "outcome_of (setup2 example_runtime example_config example_world) = Some (Returns ())"
    by code_simp
  then obtain w1 where run: "setup2 example_runtime example_config example_world = Some (w1, Returns ())"
    by (auto simp: outcome_of_def)
  from setup2_registers_once[of example_world example_runtime example_config w1 "Returns ()"] t run
  have "triggers w1 = [\<lparr>handler = ''sync2'', everyHours = 1\<rparr>] \<and>
        setup2 example_runtime example_config w1 =
          Some (w1, Throws (Error ''Triggers are already setup.''))" by blast
  with t run show ?thesis by blast
qed

subsection \<open>shouldImportEvent2: a fault ends the pass\<close>

text \<open>
  C9. \<open>shouldImportEvent2\<close> returns a boolean for every event that has a summary and a
  start. It throws a \<open>TypeError\<close> for an event without summary, and for an event without
  start whose summary holds the keyword. The filter runs outside the \<open>try\<close> of
  \<open>findEvents2\<close>: an event without summary on the first page makes \<open>findEvents2\<close> throw,
  and a call of \<open>findEvents2\<close> that throws makes \<open>sync2\<close> throw with the script
  properties, and so \<open>lastRun\<close>, as they were.
\<close>

theorem shouldImportEvent2_fault_aborts_pass:
  "(summary event = Some s \<and> start event = Some st \<longrightarrow>
      (\<exists>b. shouldImportEvent2 rt email keyword event = Inr b)) \<and>
   (summary event = None \<longrightarrow> shouldImportEvent2 rt email keyword event = Inl TypeError) \<and>
   (summary event = Some s \<and> 0 \<le> indexOf (toLowerCase s) keyword \<and> start event = None \<longrightarrow>
      shouldImportEvent2 rt email keyword event = Inl TypeError) \<and>
   ((\<forall>params. pageToken params = None \<longrightarrow> Events_list rt email params = Inr response) \<and>
    event \<in> set (items response) \<and> summary event = None \<longrightarrow>
      findEvents2 rt email keyword t m l = Some ([], Throws TypeError)) \<and>
   ((\<forall>u\<in>set (USER_EMAILS2 cfg). \<forall>k\<in>set (KEYWORDS2 cfg). query rt cfg w u k \<noteq> None) \<and>
    (\<exists>u\<in>set (USER_EMAILS2 cfg). \<exists>k\<in>set (KEYWORDS2 cfg). \<exists>out e.
        query rt cfg w u k = Some (out, Throws e)) \<longrightarrow>
      (\<exists>w'. sync2 rt cfg w = Some (w', Throws TypeError) \<and> properties w' = properties w))"
proof (intro conjI impI)
  assume "summary event = Some s \<and> start event = Some st"
  then show "\<exists>b. shouldImportEvent2 rt email keyword event = Inr b"
    using shouldImportEvent2_total by blast
next
  assume "summary event = None"
  then show "shouldImportEvent2 rt email keyword event = Inl TypeError"
    by (rule shouldImportEvent2_no_summary)
next
  assume "summary event = Some s \<and> 0 \<le> indexOf (toLowerCase s) keyword \<and> start event = None"
  then show "shouldImportEvent2 rt email keyword event = Inl TypeError"
    using shouldImportEvent2_no_start by blast
next
  assume "(\<forall>params. pageToken params = None \<longrightarrow> Events_list rt email params = Inr response) \<and>
    event \<in> set (items response) \<and> summary event = None"
  then show "findEvents2 rt email keyword t m l = Some ([], Throws TypeError)"
    using findEvents2_item_without_summary by blast
next
  assume a: "(\<forall>u\<in>set (USER_EMAILS2 cfg). \<forall>k\<in>set (KEYWORDS2 cfg). query rt cfg w u k \<noteq> None) \<and>
    (\<exists>u\<in>set (USER_EMAILS2 cfg). \<exists>k\<in>set (KEYWORDS2 cfg). \<exists>out e.
        query rt cfg w u k = Some (out, Throws e))"
  then obtain u k out e where "u \<in> set (USER_EMAILS2 cfg)" "k \<in> set (KEYWORDS2 cfg)"
    "query rt cfg w u k = Some (out, Throws e)" by blast
  moreover from this(3) have "\<not> returned (query rt cfg w u k)" by (simp add: returned_def)
  ultimately
  have "\<exists>u\<in>set (USER_EMAILS2 cfg). \<exists>k\<in>set (KEYWORDS2 cfg). \<not> returned (query rt cfg w u k)"
    by blast
  with a show "\<exists>w'. sync2 rt cfg w = Some (w', Throws TypeError) \<and> properties w' = properties w"
    using sync2_throws by blast
qed

theorem shouldImportEvent2_fault_aborts_pass_witness:
  "shouldImportEvent2 example_runtime ''bob@example.com'' ''pto'' event_team_pto = Inr True \<and>
   shouldImportEvent2 example_runtime ''bob@example.com'' ''pto'' event_cancelled = Inl TypeError \<and>
   findEvents2 runtime_cancelled_item ''bob@example.com'' ''pto'' (Some 1730710800000) None None =
     Some ([], Throws TypeError) \<and>
   (\<exists>w'. sync2 runtime_cancelled_item example_config example_world = Some (w', Throws TypeError) \<and>
          properties w' = properties example_world)"
proof -
  let ?st = "\<lparr>dateTime = None, date = Some ''2024-11-05''\<rparr>"
  let ?response = "\<lparr>items = [event_cancelled], nextPageToken = None\<rparr>"
  note claim = shouldImportEvent2_fault_aborts_pass
  have s1: "summary event_team_pto = Some ''Team PTO'' \<and> start event_team_pto = Some ?st"
    by code_simp
  have v1: "shouldImportEvent2 example_runtime ''bob@example.com'' ''pto'' event_team_pto = Inr True"
    by code_simp
  have s2: "summary event_cancelled = None" by code_simp
  have p: "(\<forall>params. pageToken params = None \<longrightarrow>
              Events_list runtime_cancelled_item ''bob@example.com'' params = Inr ?response) \<and>
           event_cancelled \<in> set (items ?response) \<and> summary event_cancelled = None"
    by (simp add: runtime_cancelled_item_def event_cancelled_def)
  have q1: "\<forall>u\<in>set (USER_EMAILS2 example_config). \<forall>k\<in>set (KEYWORDS2 example_config).
              query runtime_cancelled_item example_config example_world u k \<noteq> None"
    by code_simp
  have q2: "query runtime_cancelled_item example_config example_world ''bob@example.com'' ''pto'' =
            Some ([], Throws TypeError)" by code_simp
  have m: "''bob@example.com'' \<in> set (USER_EMAILS2 example_config)"
    "''pto'' \<in> set (KEYWORDS2 example_config)" by code_simp+
  from m q2 have q3: "\<exists>u\<in>set (USER_EMAILS2 example_config). \<exists>k\<in>set (KEYWORDS2 example_config).
    \<exists>out e. query runtime_cancelled_item example_config example_world u k = Some (out, Throws e)"
    by blast
  have "shouldImportEvent2 example_runtime ''bob@example.com'' ''pto'' event_cancelled = Inl TypeError"
    using claim[of event_cancelled _ _ example_runtime "''bob@example.com''" "''pto''"] s2 by blast
  moreover have "findEvents2 runtime_cancelled_item ''bob@example.com'' ''pto''
      (Some 1730710800000) None None = Some ([], Throws TypeError)"
    using claim[of event_cancelled _ _ runtime_cancelled_item "''bob@example.com''" "''pto''" ?response]
      p by blast
  moreover have "\<exists>w'. sync2 runtime_cancelled_item example_config example_world =
      Some (w', Throws TypeError) \<and> properties w' = properties example_world"
    using claim[of event_cancelled _ _ runtime_cancelled_item "''bob@example.com''" "''pto''" ?response
        _ _ _ example_config example_world] q1 q3 by blast
  ultimately show ?thesis using v1 by simp
qed

subsection \<open>sync2: the count that is logged\<close>

lemma length_sources:
  "length (sources f emails ks) =
   (\<Sum>email\<leftarrow>emails. \<Sum>keyword\<leftarrow>ks. length (f email keyword))"
  by (simp add: sources_def length_concat comp_def)

text \<open>
  C10. In a pass in which every call of \<open>findEvents2\<close> returns, the last line logged
  is \<open>Imported n\<close>, where \<open>n\<close> is the number of events that \<open>findEvents2\<close> returned,
  summed over the users and the keywords - whatever the provider answers to the imports.
\<close>

theorem sync2_counts_filtered_events:
  assumes "\<forall>email\<in>set (USER_EMAILS2 cfg). \<forall>keyword\<in>set (KEYWORDS2 cfg).
             returned (query rt cfg w email keyword)"
  shows "\<forall>imp. \<exists>w'.
           sync2 (rt\<lparr>Events_import := imp\<rparr>) cfg w = Some (w', Returns ()) \<and>
           console w' \<noteq> [] \<and>
           last (console w') =
             Imported (\<Sum>email\<leftarrow>USER_EMAILS2 cfg. \<Sum>keyword\<leftarrow>KEYWORDS2 cfg.
                         length (events_of (query rt cfg w email keyword)))"
proof
  fix imp
  let ?rt = "rt\<lparr>Events_import := imp\<rparr>"
  from assms have "\<forall>email\<in>set (USER_EMAILS2 cfg). \<forall>keyword\<in>set (KEYWORDS2 cfg).
             returned (query ?rt cfg w email keyword)"
    by (simp add: query_import_irrelevant)
  from sync2_returns[OF this] obtain w1 where
    run: "sync2 ?rt cfg w =
      Some (w1\<lparr>properties := (properties w)(''lastRun'' \<mapsto> dateToString rt (Some (clock w))),
               console := console w1 @ [Imported (length (pass_events rt cfg w))]\<rparr>,
            Returns ())"
    by (auto simp: pass_events_import_irrelevant)
  have "length (pass_events rt cfg w) =
        (\<Sum>email\<leftarrow>USER_EMAILS2 cfg. \<Sum>keyword\<leftarrow>KEYWORDS2 cfg.
           length (events_of (query rt cfg w email keyword)))"
    unfolding pass_events_def by (rule length_sources)
  with run show "\<exists>w'.
           sync2 ?rt cfg w = Some (w', Returns ()) \<and>
           console w' \<noteq> [] \<and>
           last (console w') =
             Imported (\<Sum>email\<leftarrow>USER_EMAILS2 cfg. \<Sum>keyword\<leftarrow>KEYWORDS2 cfg.
                         length (events_of (query rt cfg w email keyword)))"
    by simp
qed

theorem sync2_counts_filtered_events_witness:
  "import_failures refuse_import
     (map (import_call example_config)
        (pass_events runtime_one_event example_config example_world)) =
     [''Forbidden'', ''Forbidden''] \<and>
   (\<exists>w'. sync2 (runtime_one_event\<lparr>Events_import := refuse_import\<rparr>) example_config example_world =
            Some (w', Returns ()) \<and>
          last (console w') = Imported 2)"
proof -
  have q: "\<forall>email\<in>set (USER_EMAILS2 example_config). \<forall>keyword\<in>set (KEYWORDS2 example_config).
             returned (query runtime_one_event example_config example_world email keyword)"
    by code_simp
  have n: "(\<Sum>email\<leftarrow>USER_EMAILS2 example_config. \<Sum>keyword\<leftarrow>KEYWORDS2 example_config.
              length (events_of (query runtime_one_event example_config example_world email keyword))) = 2"
    by code_simp
  have f: "import_failures refuse_import
     (map (import_call example_config)
        (pass_events runtime_one_event example_config example_world)) =
     [''Forbidden'', ''Forbidden'']"
    by code_simp
  from sync2_counts_filtered_events[OF q, rule_format, of refuse_import]
  have "\<exists>w'. sync2 (runtime_one_event\<lparr>Events_import := refuse_import\<rparr>) example_config example_world =
            Some (w', Returns ()) \<and> last (console w') = Imported 2"
    unfolding n by blast
  with f show ?thesis by simp
qed

end
